theory Spec2Isabelle
  imports Complex_Main "HOL-Library.Sublist" "HOL-Library.Multiset"
begin

section \<open>TradeLogger.ts: fills, round trips and daily summaries\<close>

text \<open>
  A shallow embedding of the pure core of \<^verbatim>\<open>Tools/TradeLogger.ts\<close>: the row
  normaliser \<^verbatim>\<open>parseFillsCsv\<close>, the reconstruction \<^verbatim>\<open>groupFillsIntoRoundTrips\<close> with
  \<^verbatim>\<open>buildRoundTrip\<close>, and the aggregation \<^verbatim>\<open>computeAccountBreakdown\<close> and
  \<^verbatim>\<open>buildSummaryFromTrades\<close>.

  Numbers. A JavaScript \<^verbatim>\<open>number\<close> is modelled as an exact \<^typ>\<open>real\<close> (\<^typ>\<open>int\<close>
  where the source produces it with \<^verbatim>\<open>parseInt\<close>): sums and quotients are not rounded to a
  double and there are no infinities. \<^verbatim>\<open>NaN\<close> is modelled where the source can produce
  it, as \<^term>\<open>None\<close> of an option type.
\<close>

subsection \<open>Types\<close>

record Fill =
  time :: string
  symbol :: string
  side :: string
  price :: real
  qty :: int
  route :: string
  account :: string
  liqType :: string
  ecnFee :: real
  pnl :: real

datatype Direction = Long | Short

datatype AccountType = Live | Training | Mixed

record RoundTrip =
  id' :: string
  ticker :: string
  side :: Direction
  entry_avg :: real
  exit_avg :: real
  total_shares :: int
  pnl :: real
  fees :: real
  net_pnl :: real
  fills :: nat
  entry_time :: string
  exit_time :: string
  duration_mins :: "int option"
  accounts :: "string list"
  account_type :: AccountType
  setup' :: "string option"
  notes' :: "string option"
  chart :: "string option"

record AccountBreakdown =
  trades :: nat
  pnl :: real
  winners :: nat
  losers :: nat
  win_rate :: real

record ByAccount =
  live :: AccountBreakdown
  training :: AccountBreakdown

record Summary =
  total_pnl :: real
  total_fees :: real
  total_net_pnl :: real
  total_trades :: nat
  winners :: nat
  losers :: nat
  breakeven :: nat
  win_rate :: real
  symbols :: "string list"
  by_account :: ByAccount

subsection \<open>The built-ins the source calls\<close>

text \<open>
  \<^verbatim>\<open>Math.round(n * 100) / 100\<close>. \<^verbatim>\<open>Math.round\<close> takes the nearest integer and a tie
  upwards, which is \<open>\<lfloor>x + 1/2\<rfloor>\<close>.
\<close>

definition mathRound :: "real \<Rightarrow> int" where
  "mathRound x = \<lfloor>x + 1 / 2\<rfloor>"

definition round2 :: "real \<Rightarrow> real" where
  "round2 n = of_int (mathRound (n * 100)) / 100"

text \<open>
  Strings are byte strings; white space is the ASCII part of what \<^verbatim>\<open>trim\<close>,
  \<^verbatim>\<open>parseInt\<close> and \<^verbatim>\<open>parseFloat\<close> strip (TAB, LF, VT, FF, CR, SP).
\<close>

definition isSpace :: "char \<Rightarrow> bool" where
  "isSpace c = (c \<in> set [CHR 0x09, CHR 0x0A, CHR 0x0B, CHR 0x0C, CHR 0x0D, CHR '' ''])"

definition trim :: "string \<Rightarrow> string" where
  "trim s = rev (dropWhile isSpace (rev (dropWhile isSpace s)))"

text \<open>\<^verbatim>\<open>s.split(c)\<close> for a one-character separator: never the empty array.\<close>

fun split :: "char \<Rightarrow> string \<Rightarrow> string list" where
  "split c [] = [[]]"
| "split c (x # xs) =
     (if x = c then [] # split c xs
      else (case split c xs of p # ps \<Rightarrow> (x # p) # ps | [] \<Rightarrow> [[x]]))"

text \<open>\<^verbatim>\<open>parts[i]\<close>: \<^verbatim>\<open>undefined\<close> (here \<^term>\<open>None\<close>) out of range.\<close>

definition elemAt :: "'a list \<Rightarrow> nat \<Rightarrow> 'a option" where
  "elemAt xs i = (if i < length xs then Some (xs ! i) else None)"

definition digitVal :: "char \<Rightarrow> nat option" where
  "digitVal c =
     map_of (zip ''0123456789abcdefghijklmnopqrstuvwxyz'' [0 ..< 36] @
             zip ''ABCDEFGHIJKLMNOPQRSTUVWXYZ'' [10 ..< 36]) c"

definition isDigit :: "nat \<Rightarrow> char \<Rightarrow> bool" where
  "isDigit R c = (case digitVal c of Some d \<Rightarrow> d < R | None \<Rightarrow> False)"

definition mathInt :: "nat \<Rightarrow> string \<Rightarrow> nat" where
  "mathInt R Z = foldl (\<lambda>a c. a * R + (case digitVal c of Some d \<Rightarrow> d | None \<Rightarrow> 0)) 0 Z"

text \<open>
  \<^verbatim>\<open>parseInt(s, radix)\<close> after ECMAScript: leading white space and one sign are
  stripped, radix \<open>0\<close> (the argument left out) means 10 or, after a \<^verbatim>\<open>0x\<close> prefix, 16; the
  longest prefix of digits is read and anything after it ignored; no digit gives
  \<^verbatim>\<open>NaN\<close>. The argument \<^verbatim>\<open>undefined\<close> (\<^term>\<open>None\<close>) reads as the text
  \<^verbatim>\<open>undefined\<close>.
\<close>

definition parseInt :: "string option \<Rightarrow> nat \<Rightarrow> int option" where
  "parseInt str radix =
     (let S = dropWhile isSpace (case str of None \<Rightarrow> ''undefined'' | Some s \<Rightarrow> s);
          neg = (take 1 S = ''-'');
          S1 = (if take 1 S = ''-'' \<or> take 1 S = ''+'' then drop 1 S else S);
          hex = ((radix = 0 \<or> radix = 16) \<and> (take 2 S1 = ''0x'' \<or> take 2 S1 = ''0X''));
          R = (if hex then 16 else if radix = 0 then 10 else radix);
          S2 = (if hex then drop 2 S1 else S1);
          Z = takeWhile (isDigit R) S2
      in if radix \<noteq> 0 \<and> (radix < 2 \<or> 36 < radix) then None
         else if Z = [] then None
         else Some (if neg then - int (mathInt R Z) else int (mathInt R Z)))"

text \<open>
  \<^verbatim>\<open>parseFloat(s)\<close>: the value of the longest prefix that is a decimal literal
  (digits, an optional fraction, an optional exponent, after white space and one sign),
  \<^verbatim>\<open>NaN\<close> when there is none. The value is exact; the literal \<^verbatim>\<open>Infinity\<close> has no
  real value and is read as no number.
\<close>

definition exponentPart :: "string \<Rightarrow> int" where
  "exponentPart s =
     (if take 1 s = ''e'' \<or> take 1 s = ''E'' then
        (let t = drop 1 s;
             neg = (take 1 t = ''-'');
             u = (if take 1 t = ''-'' \<or> take 1 t = ''+'' then drop 1 t else t);
             ds = takeWhile (isDigit 10) u
         in if ds = [] then 0 else if neg then - int (mathInt 10 ds) else int (mathInt 10 ds))
      else 0)"

definition parseFloat :: "string option \<Rightarrow> real option" where
  "parseFloat str =
     (let S = dropWhile isSpace (case str of None \<Rightarrow> ''undefined'' | Some s \<Rightarrow> s);
          neg = (take 1 S = ''-'');
          S1 = (if take 1 S = ''-'' \<or> take 1 S = ''+'' then drop 1 S else S);
          ip = takeWhile (isDigit 10) S1;
          r1 = dropWhile (isDigit 10) S1;
          dot = (take 1 r1 = ''.'');
          fp = (if dot then takeWhile (isDigit 10) (drop 1 r1) else []);
          r2 = (if dot then dropWhile (isDigit 10) (drop 1 r1) else r1);
          m = real (mathInt 10 ip) + real (mathInt 10 fp) / 10 ^ length fp;
          v = m * 10 powi exponentPart r2
      in if ip = [] \<and> fp = [] then None else Some (if neg then - v else v))"

text \<open>\<^verbatim>\<open>s.toLowerCase()\<close> on ASCII letters.\<close>

definition toLowerCase :: "string \<Rightarrow> string" where
  "toLowerCase s =
     map (\<lambda>c. case map_of (zip ''ABCDEFGHIJKLMNOPQRSTUVWXYZ'' ''abcdefghijklmnopqrstuvwxyz'') c of
                 Some l \<Rightarrow> l | None \<Rightarrow> c) s"

text \<open>The decimal text of \<^verbatim>\<open>i + 1\<close> inside a template string.\<close>

fun showNat :: "nat \<Rightarrow> string" where
  "showNat n =
     (if n < 10 then [''0123456789'' ! n]
      else showNat (n div 10) @ [''0123456789'' ! (n mod 10)])"

declare showNat.simps [simp del]

text \<open>
  \<^verbatim>\<open>xs.sort(cmp)\<close>: a stable sort. The comparator's result is a number or \<^verbatim>\<open>NaN\<close>;
  ECMAScript reads \<^verbatim>\<open>NaN\<close> as \<open>0\<close>. For a comparator that is not consistent (which
  here needs a time that parses to \<^verbatim>\<open>NaN\<close>) ECMAScript leaves the order to the
  implementation; the model then gives the order of a stable insertion sort.
\<close>

definition comesAfter :: "real option \<Rightarrow> bool" where
  "comesAfter v = (case v of None \<Rightarrow> False | Some d \<Rightarrow> 0 < d)"

fun insertBy :: "('a \<Rightarrow> 'a \<Rightarrow> real option) \<Rightarrow> 'a \<Rightarrow> 'a list \<Rightarrow> 'a list" where
  "insertBy cmp x [] = [x]"
| "insertBy cmp x (y # ys) =
     (if comesAfter (cmp x y) then y # insertBy cmp x ys else x # y # ys)"

definition sortBy :: "('a \<Rightarrow> 'a \<Rightarrow> real option) \<Rightarrow> 'a list \<Rightarrow> 'a list" where
  "sortBy cmp xs = foldr (insertBy cmp) xs []"

text \<open>\<^verbatim>\<open>a - b\<close> on numbers that may be \<^verbatim>\<open>NaN\<close>.\<close>

definition subtract :: "real option \<Rightarrow> real option \<Rightarrow> real option" where
  "subtract a b = (case (a, b) of (Some x, Some y) \<Rightarrow> Some (x - y) | _ \<Rightarrow> None)"

text \<open>
  A \<^verbatim>\<open>Map\<close> keeps its keys in insertion order: an association list with one entry a
  key. \<^verbatim>\<open>if (!m.has(k)) m.set(k, [])\<close> and \<^verbatim>\<open>m.get(k).push(v)\<close>; the source
  pushes only to a key that it has just made sure of, so the push to a missing key, which
  would throw, is never reached.
\<close>

fun ensureKey :: "'k \<Rightarrow> ('k \<times> 'v list) list \<Rightarrow> ('k \<times> 'v list) list" where
  "ensureKey k [] = [(k, [])]"
| "ensureKey k ((k', vs) # m) = (if k' = k then (k', vs) # m else (k', vs) # ensureKey k m)"

fun pushTo :: "'k \<Rightarrow> 'v list \<Rightarrow> ('k \<times> 'v list) list \<Rightarrow> ('k \<times> 'v list) list" where
  "pushTo k ws [] = []"
| "pushTo k ws ((k', vs) # m) = (if k' = k then (k', vs @ ws) # m else (k', vs) # pushTo k ws m)"

subsection \<open>Round-trip grouping\<close>

text \<open>
  \<^verbatim>\<open>timeToMinutes\<close> (line 206). \<^verbatim>\<open>parts[2] || "0"\<close> replaces a missing or empty
  third part; a missing second part is \<^verbatim>\<open>undefined\<close>, which parses to \<^verbatim>\<open>NaN\<close>.
\<close>

definition timeToMinutes :: "string \<Rightarrow> real option" where
  "timeToMinutes t =
     (let parts = split CHR '':'' t in
      case (parseInt (elemAt parts 0) 0,
            parseInt (elemAt parts 1) 0,
            parseInt (Some (case elemAt parts 2 of
                              None \<Rightarrow> ''0''
                            | Some p \<Rightarrow> if p = [] then ''0'' else p)) 0) of
        (Some h, Some m, Some s) \<Rightarrow> Some (real_of_int h * 60 + real_of_int m + real_of_int s / 60)
      | _ \<Rightarrow> None)"

text \<open>
  \<^verbatim>\<open>findChartFile\<close> (line 344) reads the directory \<^verbatim>\<open>sourceDir\<close>. The model takes what
  the read returns in place of the path: \<^term>\<open>None\<close> when the directory does not exist or
  \<^verbatim>\<open>readdirSync\<close> throws, \<^term>\<open>Some files\<close> for its listing.
\<close>

definition findChartFile :: "string \<Rightarrow> string \<Rightarrow> string list option \<Rightarrow> string option" where
  "findChartFile symbol' date sourceDir =
     (case sourceDir of
        None \<Rightarrow> None
      | Some files \<Rightarrow>
          (case find (\<lambda>f. prefix (toLowerCase symbol') (toLowerCase f) \<and>
                          (suffix ''.jpg'' f \<or> suffix ''.jpeg'' f \<or> suffix ''.png'' f)) files of
             None \<Rightarrow> None
           | Some match \<Rightarrow> if match = [] then None else Some match))"

text \<open>\<^verbatim>\<open>[...new Set(xs)]\<close>: the distinct elements in order of first occurrence.\<close>

definition unique :: "'a list \<Rightarrow> 'a list" where
  "unique xs = rev (remdups (rev xs))"

text \<open>\<^verbatim>\<open>buildRoundTrip\<close> (line 276); \<^verbatim>\<open>null\<close> is \<^term>\<open>None\<close>.\<close>

definition buildRoundTrip ::
  "Fill list \<Rightarrow> string \<Rightarrow> string \<Rightarrow> string list option \<Rightarrow> string \<Rightarrow> RoundTrip option" where
  "buildRoundTrip fs date symbol' sourceDir trainingPrefix =
     (case fs of
        [] \<Rightarrow> None
      | firstFill # _ \<Rightarrow>
          (let side' = (if Fill.side firstFill = ''B'' then Long else Short);
               entryFills = filter (\<lambda>f. if side' = Long then Fill.side f = ''B''
                                         else (Fill.side f = ''S'' \<or> Fill.side f = ''SS'')) fs;
               exitFills = filter (\<lambda>f. if side' = Long then (Fill.side f = ''S'' \<or> Fill.side f = ''SS'')
                                        else Fill.side f = ''B'') fs;
               entryNotional = foldl (\<lambda>sum f. sum + price f * real_of_int (qty f)) 0 entryFills;
               entryShares = foldl (\<lambda>sum f. sum + qty f) 0 entryFills;
               entry_avg' = (if entryShares > 0 then round2 (entryNotional / real_of_int entryShares) else 0);
               exitNotional = foldl (\<lambda>sum f. sum + price f * real_of_int (qty f)) 0 exitFills;
               exitShares = foldl (\<lambda>sum f. sum + qty f) 0 exitFills;
               exit_avg' = (if exitShares > 0 then round2 (exitNotional / real_of_int exitShares) else 0);
               total_shares' = max entryShares exitShares;
               pnl' = round2 (foldl (\<lambda>sum f. sum + Fill.pnl f) 0 fs);
               fees' = round2 (foldl (\<lambda>sum f. sum + \<bar>ecnFee f\<bar>) 0 fs);
               net_pnl' = round2 pnl';
               entry_time' = time firstFill;
               exit_time' = time (last fs);
               duration_mins' = map_option mathRound
                                  (subtract (timeToMinutes exit_time') (timeToMinutes entry_time'));
               accounts' = unique (map account fs);
               hasTraining = list_ex (\<lambda>a. prefix trainingPrefix a) accounts';
               hasLive = list_ex (\<lambda>a. \<not> prefix trainingPrefix a) accounts';
               account_type' = (if hasTraining \<and> hasLive then Mixed
                                else if hasTraining then Training else Live);
               chart' = findChartFile symbol' date sourceDir
           in Some \<lparr> id' = [], ticker = symbol', side = side', entry_avg = entry_avg',
                     exit_avg = exit_avg', total_shares = total_shares', RoundTrip.pnl = pnl',
                     fees = fees', net_pnl = net_pnl', fills = length fs,
                     entry_time = entry_time', exit_time = exit_time',
                     duration_mins = map_option (\<lambda>d. max d 0) duration_mins',
                     accounts = accounts', account_type = account_type',
                     setup' = None, notes' = None, chart = chart' \<rparr>))"

text \<open>The comparators of the three \<^verbatim>\<open>sort\<close> calls (lines 213, 263, 271).\<close>

definition byTime :: "Fill \<Rightarrow> Fill \<Rightarrow> real option" where
  "byTime a b = subtract (timeToMinutes (time a)) (timeToMinutes (time b))"

definition byEntryTime :: "RoundTrip \<Rightarrow> RoundTrip \<Rightarrow> real option" where
  "byEntryTime a b = subtract (timeToMinutes (entry_time a)) (timeToMinutes (entry_time b))"

text \<open>Lines 218 to 223: the groups, keyed by \<^verbatim>\<open>`${fill.symbol}|${fill.account}`\<close>.\<close>

definition groupKey :: "Fill \<Rightarrow> string" where
  "groupKey fill = symbol fill @ ''|'' @ account fill"

definition groupFills :: "Fill list \<Rightarrow> (string \<times> Fill list) list" where
  "groupFills sorted' =
     foldl (\<lambda>groups fill. pushTo (groupKey fill) [fill] (ensureKey (groupKey fill) groups)) [] sorted'"

text \<open>\<^verbatim>\<open>if (rt) xs.push(rt)\<close>: what the push adds.\<close>

definition pushIf :: "'a option \<Rightarrow> 'a list" where
  "pushIf rt = (case rt of Some r \<Rightarrow> [r] | None \<Rightarrow> [])"

text \<open>
  Lines 232 to 251, the loop over one group's fills. The state is \<^verbatim>\<open>position\<close>,
  \<^verbatim>\<open>currentFills\<close> and the round trips pushed for this group so far.
\<close>

fun trackPosition ::
  "string \<Rightarrow> string \<Rightarrow> string list option \<Rightarrow> string \<Rightarrow>
   int \<times> Fill list \<times> RoundTrip list \<Rightarrow> Fill list \<Rightarrow> int \<times> Fill list \<times> RoundTrip list" where
  "trackPosition date symbol' sourceDir trainingPrefix (position, currentFills, pushed) [] =
     (position, currentFills, pushed)"
| "trackPosition date symbol' sourceDir trainingPrefix (position, currentFills, pushed) (fill # rest) =
     (let currentFills1 = currentFills @ [fill];
          position1 = (if Fill.side fill = ''B'' then position + qty fill else position - qty fill)
      in if position1 = 0 \<and> length currentFills1 > 0
         then trackPosition date symbol' sourceDir trainingPrefix
                (position1, [],
                 pushed @ pushIf (buildRoundTrip currentFills1 date symbol' sourceDir trainingPrefix))
                rest
         else trackPosition date symbol' sourceDir trainingPrefix
                (position1, currentFills1, pushed) rest)"

text \<open>
  Lines 232 to 257 for one group: the loop, then the round trip left open at the end of the
  day. The call of line 255 passes no \<^verbatim>\<open>trainingPrefix\<close>, so the parameter's default
  \<^verbatim>\<open>"TR"\<close> applies there.
\<close>

definition groupRoundTrips ::
  "string \<Rightarrow> string \<Rightarrow> string list option \<Rightarrow> string \<Rightarrow> Fill list \<Rightarrow> RoundTrip list" where
  "groupRoundTrips date symbol' sourceDir trainingPrefix groupFills' =
     (case trackPosition date symbol' sourceDir trainingPrefix (0, [], []) groupFills' of
        (position, currentFills, pushed) \<Rightarrow>
          if length currentFills > 0
          then pushed @ pushIf (buildRoundTrip currentFills date symbol' sourceDir ''TR'')
          else pushed)"

text \<open>
  Lines 226 to 258, the loop over the groups, building \<^verbatim>\<open>symbolRoundTrips\<close>. The symbol
  is \<^verbatim>\<open>key.split("|")[0]\<close>. A group's round trips are pushed one by one in the source and
  in one step here; nothing else touches the map in between.
\<close>

definition keySymbol :: "string \<Rightarrow> string" where
  "keySymbol key = (case split CHR ''|'' key of symbol' # _ \<Rightarrow> symbol' | [] \<Rightarrow> [])"

definition collectRoundTrips ::
  "string \<Rightarrow> string list option \<Rightarrow> string \<Rightarrow> (string \<times> Fill list) list \<Rightarrow>
   (string \<times> RoundTrip list) list" where
  "collectRoundTrips date sourceDir trainingPrefix groups =
     foldl (\<lambda>symbolRoundTrips (key, groupFills').
              pushTo (keySymbol key)
                (groupRoundTrips date (keySymbol key) sourceDir trainingPrefix groupFills')
                (ensureKey (keySymbol key) symbolRoundTrips))
       [] groups"

text \<open>Lines 261 to 268: per symbol, sort by entry time, number from 1, append.\<close>

definition assignIds :: "string \<Rightarrow> string \<Rightarrow> RoundTrip list \<Rightarrow> RoundTrip list" where
  "assignIds date symbol' rts =
     map (\<lambda>(i, rt). rt\<lparr>id' := date @ ''-'' @ symbol' @ ''-'' @ showNat (i + 1)\<rparr>) (enumerate 0 rts)"

definition numberRoundTrips :: "string \<Rightarrow> (string \<times> RoundTrip list) list \<Rightarrow> RoundTrip list" where
  "numberRoundTrips date symbolRoundTrips =
     foldl (\<lambda>allRoundTrips (symbol', rts). allRoundTrips @ assignIds date symbol' (sortBy byEntryTime rts))
       [] symbolRoundTrips"

text \<open>\<^verbatim>\<open>groupFillsIntoRoundTrips\<close> (line 211).\<close>

definition groupFillsIntoRoundTrips ::
  "Fill list \<Rightarrow> string \<Rightarrow> string list option \<Rightarrow> string \<Rightarrow> RoundTrip list" where
  "groupFillsIntoRoundTrips fs date sourceDir trainingPrefix =
     (let sorted' = sortBy byTime fs;
          groups = groupFills sorted';
          symbolRoundTrips = collectRoundTrips date sourceDir trainingPrefix groups;
          allRoundTrips = numberRoundTrips date symbolRoundTrips
      in sortBy byEntryTime allRoundTrips)"

subsection \<open>Aggregation\<close>

text \<open>\<^verbatim>\<open>computeAccountBreakdown\<close> (line 362).\<close>

definition computeAccountBreakdown :: "RoundTrip list \<Rightarrow> ByAccount" where
  "computeAccountBreakdown trades' =
     (let live' = filter (\<lambda>t. account_type t = Live) trades';
          training' = filter (\<lambda>t. account_type t = Training) trades';
          mixed = filter (\<lambda>t. account_type t = Mixed) trades';
          liveAll = live' @ mixed;
          liveWin = length (filter (\<lambda>t. net_pnl t > 0) liveAll);
          livePnl = round2 (foldl (\<lambda>s t. s + net_pnl t) 0 liveAll);
          trainingWin = length (filter (\<lambda>t. net_pnl t > 0) training');
          trainingLose = length (filter (\<lambda>t. net_pnl t < 0) training');
          trainingPnl = round2 (foldl (\<lambda>s t. s + net_pnl t) 0 training')
      in \<lparr> live =
             \<lparr> trades = length liveAll,
               AccountBreakdown.pnl = livePnl,
               AccountBreakdown.winners = liveWin,
               AccountBreakdown.losers = length (filter (\<lambda>t. net_pnl t < 0) liveAll),
               AccountBreakdown.win_rate =
                 (if length liveAll > 0
                  then round2 ((real liveWin / real (length liveAll)) * 100) else 0) \<rparr>,
           training =
             \<lparr> trades = length training',
               AccountBreakdown.pnl = trainingPnl,
               AccountBreakdown.winners = trainingWin,
               AccountBreakdown.losers = trainingLose,
               AccountBreakdown.win_rate =
                 (if length training' > 0
                  then round2 ((real trainingWin / real (length training')) * 100) else 0) \<rparr> \<rparr>)"

text \<open>\<^verbatim>\<open>buildSummaryFromTrades\<close> (line 984); the date is not used.\<close>

definition buildSummaryFromTrades :: "string \<Rightarrow> RoundTrip list \<Rightarrow> Summary" where
  "buildSummaryFromTrades date trades' =
     (let totalPnl = round2 (foldl (\<lambda>s t. s + RoundTrip.pnl t) 0 trades');
          totalFees = round2 (foldl (\<lambda>s t. s + fees t) 0 trades');
          winners' = length (filter (\<lambda>t. net_pnl t > 0) trades');
          losers' = length (filter (\<lambda>t. net_pnl t < 0) trades');
          breakeven' = length (filter (\<lambda>t. net_pnl t = 0) trades');
          byAccount = computeAccountBreakdown trades'
      in \<lparr> total_pnl = totalPnl,
           total_fees = totalFees,
           total_net_pnl = round2 totalPnl,
           total_trades = length trades',
           winners = winners',
           losers = losers',
           breakeven = breakeven',
           win_rate = (if length trades' > 0
                       then round2 ((real winners' / real (length trades')) * 100) else 0),
           symbols = unique (map ticker trades'),
           by_account = byAccount \<rparr>)"

text \<open>
  The summary that \<^verbatim>\<open>cmdIngest\<close> builds from the round trips of the day (lines 430 to
  452): the \<^verbatim>\<open>summary\<close> field of its \<^verbatim>\<open>dailyLog\<close>.
\<close>

definition cmdIngest_summary :: "RoundTrip list \<Rightarrow> Summary" where
  "cmdIngest_summary roundTrips =
     (let symbols' = unique (map ticker roundTrips);
          totalPnl = round2 (foldl (\<lambda>s rt. s + RoundTrip.pnl rt) 0 roundTrips);
          totalFees = round2 (foldl (\<lambda>s rt. s + fees rt) 0 roundTrips);
          winners' = length (filter (\<lambda>rt. net_pnl rt > 0) roundTrips);
          losers' = length (filter (\<lambda>rt. net_pnl rt < 0) roundTrips);
          breakeven' = length (filter (\<lambda>rt. net_pnl rt = 0) roundTrips);
          byAccount = computeAccountBreakdown roundTrips
      in \<lparr> total_pnl = totalPnl,
           total_fees = totalFees,
           total_net_pnl = round2 totalPnl,
           total_trades = length roundTrips,
           winners = winners',
           losers = losers',
           breakeven = breakeven',
           win_rate = (if length roundTrips > 0
                       then round2 ((real winners' / real (length roundTrips)) * 100) else 0),
           symbols = symbols',
           by_account = byAccount \<rparr>)"

subsection \<open>CSV parsing\<close>

text \<open>
  \<^verbatim>\<open>parseFillsCsv\<close> (line 124), from the records that \<^verbatim>\<open>csvParse\<close> of the csv-parse
  package returns: one object a row, from column name to text, a column beyond the row's
  end absent.
\<close>

type_synonym row = "string \<Rightarrow> string option"

text \<open>\<^verbatim>\<open>!v\<close> for a text or \<^verbatim>\<open>undefined\<close>, \<^verbatim>\<open>v || ""\<close>, and \<^verbatim>\<open>n || 0\<close>.\<close>

definition falsy :: "string option \<Rightarrow> bool" where
  "falsy v = (case v of None \<Rightarrow> True | Some s \<Rightarrow> s = [])"

definition orEmpty :: "string option \<Rightarrow> string" where
  "orEmpty v = (case v of None \<Rightarrow> [] | Some s \<Rightarrow> s)"

definition orZero :: "real option \<Rightarrow> real" where
  "orZero n = (case n of None \<Rightarrow> 0 | Some x \<Rightarrow> x)"

text \<open>The body of the loop, lines 136 to 155: \<^term>\<open>None\<close> is the \<^verbatim>\<open>continue\<close>.\<close>

definition parseRow :: "row \<Rightarrow> Fill option" where
  "parseRow row =
     (let time' = map_option trim (row ''Time'');
          symbol' = map_option trim (row ''Symbol'');
          side' = map_option trim (row ''Side'');
          price' = parseFloat (row ''Price'');
          qty' = parseInt (row ''Qty'') 10
      in if falsy time' \<or> falsy symbol' \<or> falsy side' \<or> price' = None \<or> qty' = None then None
         else Some \<lparr> time = orEmpty time',
                     symbol = orEmpty symbol',
                     Fill.side = orEmpty side',
                     price = orZero price',
                     qty = (case qty' of Some q \<Rightarrow> q | None \<Rightarrow> 0),
                     route = orEmpty (map_option trim (row ''Route'')),
                     account = orEmpty (map_option trim (row ''Account'')),
                     liqType = orEmpty (map_option trim (row ''LiqType'')),
                     ecnFee = orZero (parseFloat (row ''ECNFee'')),
                     Fill.pnl = orZero (parseFloat (row ''P / L'')) \<rparr>)"

fun parseFillsCsv :: "row list \<Rightarrow> Fill list" where
  "parseFillsCsv [] = []"
| "parseFillsCsv (row # records) = pushIf (parseRow row) @ parseFillsCsv records"

section \<open>Vocabulary of the properties\<close>

text \<open>
  The signed quantity of a fill as the loop of line 238 counts it (a Buy adds, every other
  side subtracts), and the net position of a list of fills.
\<close>

definition signedQty :: "Fill \<Rightarrow> int" where
  "signedQty fill = (if Fill.side fill = ''B'' then qty fill else - qty fill)"

definition netPosition :: "Fill list \<Rightarrow> int" where
  "netPosition fs = sum_list (map signedQty fs)"

text \<open>
  The buffers that the loop of lines 235 to 251 hands to \<^verbatim>\<open>buildRoundTrip\<close>, in order,
  and the buffer left when the group's fills are used up: the fills of each round trip.
\<close>

fun closedRuns :: "int \<times> Fill list \<Rightarrow> Fill list \<Rightarrow> Fill list list \<times> Fill list" where
  "closedRuns (position, currentFills) [] = ([], currentFills)"
| "closedRuns (position, currentFills) (fill # rest) =
     (let currentFills1 = currentFills @ [fill];
          position1 = position + signedQty fill
      in if position1 = 0
         then (case closedRuns (position1, []) rest of
                 (runs, open') \<Rightarrow> (currentFills1 # runs, open'))
         else closedRuns (position1, currentFills1) rest)"

text \<open>The fills of every round trip of a group, the open one last.\<close>

definition roundTripFills :: "Fill list \<Rightarrow> Fill list list" where
  "roundTripFills groupFills' =
     (case closedRuns (0, []) groupFills' of
        (runs, open') \<Rightarrow> if open' = [] then runs else runs @ [open'])"

text \<open>
  The entry side and the exit side of a round trip's fills: the Buy fills and the Sell and
  SellShort fills, which is which depending on whether the first fill is a Buy.
\<close>

definition entrySide :: "Fill list \<Rightarrow> Fill list" where
  "entrySide fs =
     (case fs of
        [] \<Rightarrow> []
      | firstFill # _ \<Rightarrow>
          if Fill.side firstFill = ''B'' then filter (\<lambda>f. Fill.side f = ''B'') fs
          else filter (\<lambda>f. Fill.side f = ''S'' \<or> Fill.side f = ''SS'') fs)"

definition exitSide :: "Fill list \<Rightarrow> Fill list" where
  "exitSide fs =
     (case fs of
        [] \<Rightarrow> []
      | firstFill # _ \<Rightarrow>
          if Fill.side firstFill = ''B'' then filter (\<lambda>f. Fill.side f = ''S'' \<or> Fill.side f = ''SS'') fs
          else filter (\<lambda>f. Fill.side f = ''B'') fs)"

definition shares :: "Fill list \<Rightarrow> int" where
  "shares fs = sum_list (map qty fs)"

text \<open>The quantity-weighted average price, rounded: \<open>round2 (\<Sum>(price * qty) / \<Sum>qty)\<close>.\<close>

definition weightedAverage :: "Fill list \<Rightarrow> real" where
  "weightedAverage fs =
     round2 (sum_list (map (\<lambda>f. price f * real_of_int (qty f)) fs) / real_of_int (shares fs))"

text \<open>An amount that is a whole number of cents.\<close>

definition wholeCents :: "real \<Rightarrow> bool" where
  "wholeCents x = (real_of_int \<lfloor>x * 100\<rfloor> = x * 100)"

text \<open>The entry time of a round trip in minutes, \<open>0\<close> standing in where it is \<^verbatim>\<open>NaN\<close>.\<close>

definition entryMinutes :: "RoundTrip \<Rightarrow> real" where
  "entryMinutes rt = (case timeToMinutes (entry_time rt) of Some m \<Rightarrow> m | None \<Rightarrow> 0)"

definition timesParse :: "Fill list \<Rightarrow> bool" where
  "timesParse fs = list_all (\<lambda>f. timeToMinutes (time f) \<noteq> None) fs"

text \<open>The closed buffers of a group and its open buffer (empty when the group ends flat).\<close>

definition closedFills :: "Fill list \<Rightarrow> Fill list list" where
  "closedFills groupFills' = fst (closedRuns (0, []) groupFills')"

definition openFills :: "Fill list \<Rightarrow> Fill list" where
  "openFills groupFills' = snd (closedRuns (0, []) groupFills')"

text \<open>The fills of every round trip of a day, group after group.\<close>

definition allRoundTripFills :: "Fill list \<Rightarrow> Fill list list" where
  "allRoundTripFills fs =
     concat (map (\<lambda>(key, groupFills'). roundTripFills groupFills') (groupFills (sortBy byTime fs)))"

text \<open>The statistics of one bucket of the breakdown, over the trades that it covers.\<close>

definition bucket :: "RoundTrip list \<Rightarrow> AccountBreakdown" where
  "bucket ts =
     \<lparr> trades = length ts,
       AccountBreakdown.pnl = round2 (sum_list (map net_pnl ts)),
       AccountBreakdown.winners = length (filter (\<lambda>t. net_pnl t > 0) ts),
       AccountBreakdown.losers = length (filter (\<lambda>t. net_pnl t < 0) ts),
       AccountBreakdown.win_rate =
         (if ts = [] then 0
          else round2 (real (length (filter (\<lambda>t. net_pnl t > 0) ts)) / real (length ts) * 100)) \<rparr>"

text \<open>A round trip without its chart, and one whose entry time is a time.\<close>

definition eraseChart :: "RoundTrip \<Rightarrow> RoundTrip" where
  "eraseChart rt = rt\<lparr>chart := None\<rparr>"

definition parses :: "RoundTrip \<Rightarrow> bool" where
  "parses rt = (timeToMinutes (entry_time rt) \<noteq> None)"

text \<open>
  A cell of a row that is absent or white space only; a text without its leading white
  space and sign; a cell that begins, after these, with an integer or with a decimal
  number; and a text made only of characters that occur in numbers.
\<close>

definition blank :: "string option \<Rightarrow> bool" where
  "blank v = (case v of None \<Rightarrow> True | Some s \<Rightarrow> list_all isSpace s)"

definition unsigned :: "string \<Rightarrow> string" where
  "unsigned s =
     (let t = dropWhile isSpace s in if take 1 t = ''-'' \<or> take 1 t = ''+'' then drop 1 t else t)"

definition startsWithInteger :: "string option \<Rightarrow> bool" where
  "startsWithInteger v =
     (case v of
        None \<Rightarrow> False
      | Some s \<Rightarrow> (case unsigned s of c # _ \<Rightarrow> isDigit 10 c | [] \<Rightarrow> False))"

definition startsWithDecimal :: "string option \<Rightarrow> bool" where
  "startsWithDecimal v =
     (case v of
        None \<Rightarrow> False
      | Some s \<Rightarrow>
          (case unsigned s of
             c # r \<Rightarrow> isDigit 10 c \<or>
                      (c = CHR ''.'' \<and> (case r of d # _ \<Rightarrow> isDigit 10 d | [] \<Rightarrow> False))
           | [] \<Rightarrow> False))"

definition numericText :: "string \<Rightarrow> bool" where
  "numericText s = (s \<noteq> [] \<and> list_all (\<lambda>c. isDigit 10 c \<or> c \<in> set ''+-.eE'') s)"

text \<open>\<^verbatim>\<open>m.get(k)\<close> on such a map, the empty list for a key that it does not have.\<close>

definition lookup :: "'k \<Rightarrow> ('k \<times> 'v list) list \<Rightarrow> 'v list" where
  "lookup k m = (case map_of m k of Some vs \<Rightarrow> vs | None \<Rightarrow> [])"

text \<open>An invariant of a map from keys to lists: each value sits under its own key.\<close>

definition keyed :: "('v \<Rightarrow> 'k) \<Rightarrow> ('k \<times> 'v list) list \<Rightarrow> bool" where
  "keyed T m = list_all (\<lambda>(k, vs). list_all (\<lambda>v. T v = k) vs) m"

text \<open>A fill for the examples: the fields that no property reads are left empty.\<close>

definition sampleFill ::
  "string \<Rightarrow> string \<Rightarrow> string \<Rightarrow> real \<Rightarrow> int \<Rightarrow> string \<Rightarrow> real \<Rightarrow> real \<Rightarrow> Fill" where
  "sampleFill t sy sd p q acct fee pl =
     \<lparr> time = t, symbol = sy, Fill.side = sd, price = p, qty = q, route = [],
       account = acct, liqType = [], ecnFee = fee, Fill.pnl = pl \<rparr>"

text \<open>A round trip and a row for the examples.\<close>

definition sampleTrade :: "AccountType \<Rightarrow> real \<Rightarrow> RoundTrip" where
  "sampleTrade ty p =
     \<lparr> id' = [], ticker = ''AAPL'', side = Long, entry_avg = 0, exit_avg = 0, total_shares = 0,
       RoundTrip.pnl = p, fees = 0, net_pnl = p, fills = 1, entry_time = ''09:30:00'',
       exit_time = ''09:30:00'', duration_mins = Some 0, accounts = [], account_type = ty,
       setup' = None, notes' = None, chart = None \<rparr>"

definition sampleRow :: "string \<Rightarrow> string \<Rightarrow> row" where
  "sampleRow p q =
     map_of [(''Time'', ''09:30:00''), (''Symbol'', ''AAPL''), (''Side'', ''B''),
             (''Price'', p), (''Qty'', q), (''Account'', ''A1'')]"

section \<open>Properties\<close>

subsection \<open>Sums, counts and rounding\<close>

lemma foldl_add_sum_list:
  "foldl (\<lambda>s x. s + g x) a xs = (a :: 'a :: comm_monoid_add) + sum_list (map g xs)"
  by (induction xs arbitrary: a) (simp_all add: add.assoc)

lemma length_filter_trichotomy:
  "length (filter (\<lambda>t. f t > (0::real)) xs) + length (filter (\<lambda>t. f t < 0) xs)
     + length (filter (\<lambda>t. f t = 0) xs) = length xs"
  by (induction xs) auto

lemma sum_list_mset_cong:
  "mset xs = mset ys \<Longrightarrow> sum_list xs = (sum_list ys :: 'a :: comm_monoid_add)"
  by (metis sum_mset_sum_list)

lemma sum_list_concat_map:
  "sum_list (map (\<lambda>r. sum_list (map g r)) xss) = (sum_list (map g (concat xss)) :: real)"
  by (induction xss) simp_all

lemma list_all_mset_cong: "mset (map h xs) = mset (map h ys) \<Longrightarrow> list_all h xs = list_all h ys"
proof -
  assume "mset (map h xs) = mset (map h ys)"
  then have "set (map h xs) = set (map h ys)"
    by (metis set_mset_mset)
  then have "h ` set xs = h ` set ys"
    by simp
  then show ?thesis
    unfolding list_all_iff by (metis (full_types) image_iff)
qed

lemma wholeCents_iff: "wholeCents x = (x * 100 \<in> \<int>)"
  unfolding wholeCents_def by (metis Ints_of_int of_int_floor)

lemma round2_wholeCents: "wholeCents x \<Longrightarrow> round2 x = x"
proof -
  assume "wholeCents x"
  then obtain k :: int where k: "x * 100 = of_int k"
    unfolding wholeCents_iff by (auto elim: Ints_cases)
  have "\<lfloor>(of_int k :: real) + 1 / 2\<rfloor> = k"
    by linarith
  then show ?thesis
    using k by (simp add: round2_def mathRound_def)
qed

lemma wholeCents_round2: "wholeCents (round2 x)"
  by (simp add: wholeCents_iff round2_def)

lemma round2_idem: "round2 (round2 x) = round2 x"
  by (rule round2_wholeCents) (rule wholeCents_round2)

lemma wholeCents_sum_list:
  "list_all (\<lambda>f. wholeCents (g f)) xs \<Longrightarrow> wholeCents (sum_list (map g xs))"
  by (induction xs) (simp_all add: wholeCents_iff distrib_right)

subsection \<open>The daily summary\<close>


subsection \<open>The breakdown by account type\<close>

lemma length_filter_live_mixed:
  "length (filter P (filter (\<lambda>t. account_type t = Live) ts @ filter (\<lambda>t. account_type t = Mixed) ts))
     = length (filter P (filter (\<lambda>t. account_type t \<noteq> Training) ts))"
proof (induction ts)
  case Nil
  show ?case by simp
next
  case (Cons t ts)
  then show ?case by (cases "account_type t") auto
qed

lemma sum_list_live_mixed:
  "sum_list (map g (filter (\<lambda>t. account_type t = Live) ts))
     + sum_list (map g (filter (\<lambda>t. account_type t = Mixed) ts))
     = (sum_list (map g (filter (\<lambda>t. account_type t \<noteq> Training) ts)) :: real)"
proof (induction ts)
  case Nil
  show ?case by simp
next
  case (Cons t ts)
  then show ?case by (cases "account_type t") auto
qed

lemma bucket_of_equal_statistics:
  assumes len: "\<And>P. length (filter P la) = length (filter P l)"
    and sum: "sum_list (map net_pnl la) = sum_list (map net_pnl l)"
  shows "\<lparr> trades = length la,
       AccountBreakdown.pnl = round2 (foldl (\<lambda>s t. s + net_pnl t) 0 la),
       AccountBreakdown.winners = length (filter (\<lambda>t. net_pnl t > 0) la),
       AccountBreakdown.losers = length (filter (\<lambda>t. net_pnl t < 0) la),
       AccountBreakdown.win_rate =
         (if length la > 0
          then round2 ((real (length (filter (\<lambda>t. net_pnl t > 0) la)) / real (length la)) * 100)
          else 0) \<rparr> = bucket l"
proof -
  have l: "length la = length l"
    using len [of "\<lambda>_. True"] by simp
  then have e: "(l = []) = (length la = 0)"
    by simp
  show ?thesis
    unfolding bucket_def foldl_add_sum_list e
    by (simp add: len sum l)
qed



subsection \<open>One round trip\<close>

lemma entryFills_eq:
  "filter (\<lambda>x. if (if Fill.side f = ''B'' then Long else Short) = Long then Fill.side x = ''B''
                 else (Fill.side x = ''S'' \<or> Fill.side x = ''SS'')) (f # gs) = entrySide (f # gs)"
  by (simp add: entrySide_def)

lemma exitFills_eq:
  "filter (\<lambda>x. if (if Fill.side f = ''B'' then Long else Short) = Long
                 then (Fill.side x = ''S'' \<or> Fill.side x = ''SS'')
                 else Fill.side x = ''B'') (f # gs) = exitSide (f # gs)"
  by (simp add: exitSide_def)

lemma buildRoundTrip_Cons:
  "buildRoundTrip (f # gs) date sy dir P =
     Some \<lparr> id' = [], ticker = sy, side = (if Fill.side f = ''B'' then Long else Short),
            entry_avg = (if 0 < shares (entrySide (f # gs)) then weightedAverage (entrySide (f # gs)) else 0),
            exit_avg = (if 0 < shares (exitSide (f # gs)) then weightedAverage (exitSide (f # gs)) else 0),
            total_shares = max (shares (entrySide (f # gs))) (shares (exitSide (f # gs))),
            RoundTrip.pnl = round2 (sum_list (map Fill.pnl (f # gs))),
            fees = round2 (sum_list (map (\<lambda>x. \<bar>ecnFee x\<bar>) (f # gs))),
            net_pnl = round2 (round2 (sum_list (map Fill.pnl (f # gs)))),
            fills = length (f # gs),
            entry_time = time f, exit_time = time (last (f # gs)),
            duration_mins = map_option (\<lambda>d. max d 0)
               (map_option mathRound (subtract (timeToMinutes (time (last (f # gs)))) (timeToMinutes (time f)))),
            accounts = unique (map account (f # gs)),
            account_type =
              (if list_ex (\<lambda>a. prefix P a) (unique (map account (f # gs)))
                  \<and> list_ex (\<lambda>a. \<not> prefix P a) (unique (map account (f # gs))) then Mixed
               else if list_ex (\<lambda>a. prefix P a) (unique (map account (f # gs))) then Training else Live),
            setup' = None, notes' = None, chart = findChartFile sy date dir \<rparr>"
  unfolding buildRoundTrip_def Let_def list.case entryFills_eq exitFills_eq foldl_add_sum_list
    shares_def weightedAverage_def
  by simp

lemma shares_Nil: "shares [] = 0"
  by (simp add: shares_def)

lemma build_fills:
  "r \<noteq> [] \<Longrightarrow> map fills (pushIf (buildRoundTrip r d s dir P)) = [length r]"
  by (cases r) (simp_all add: buildRoundTrip_Cons pushIf_def)

lemma build_net_pnl:
  "r \<noteq> [] \<Longrightarrow> map net_pnl (pushIf (buildRoundTrip r d s dir P))
     = [round2 (round2 (sum_list (map Fill.pnl r)))]"
  by (cases r) (simp_all add: buildRoundTrip_Cons pushIf_def)

lemma build_entry_time:
  "r \<noteq> [] \<Longrightarrow> map parses (pushIf (buildRoundTrip r d s dir P))
     = [timeToMinutes (time (hd r)) \<noteq> None]"
  by (cases r) (simp_all add: buildRoundTrip_Cons pushIf_def parses_def)

lemma build_ticker:
  "r \<noteq> [] \<Longrightarrow> map ticker (pushIf (buildRoundTrip r d s dir P)) = [s]"
  by (cases r) (simp_all add: buildRoundTrip_Cons pushIf_def)

lemma pushIf_map_option: "pushIf (map_option g x) = map g (pushIf x)"
  by (cases x) (simp_all add: pushIf_def)

lemma build_no_dir:
  "buildRoundTrip r d s None P = map_option eraseChart (buildRoundTrip r d s dir P)"
proof (cases r)
  case Nil
  then show ?thesis by (simp add: buildRoundTrip_def)
next
  case (Cons f gs)
  show ?thesis
    unfolding Cons buildRoundTrip_Cons by (simp add: eraseChart_def findChartFile_def)
qed

text \<open>
  C5, as amended. A round trip is built from every non-empty list of fills. Its entry
  price is the rounded quantity-weighted average over the entry-side fills when their
  quantities sum to more than zero, and \<open>0\<close> otherwise; the exit price likewise over the
  exit-side fills; \<open>total_shares\<close> is the larger of the two sums. When there is no exit-side
  fill the exit price is \<open>0\<close> and \<open>total_shares\<close> is the entry-side sum, or \<open>0\<close> when that
  sum is negative.
\<close>

theorem weighted_average_prices:
  "\<exists>rt. buildRoundTrip (f # gs) date sy dir P = Some rt
     \<and> entry_avg rt = (if 0 < shares (entrySide (f # gs)) then weightedAverage (entrySide (f # gs)) else 0)
     \<and> exit_avg rt = (if 0 < shares (exitSide (f # gs)) then weightedAverage (exitSide (f # gs)) else 0)
     \<and> total_shares rt = max (shares (entrySide (f # gs))) (shares (exitSide (f # gs)))
     \<and> fills rt = length (f # gs)
     \<and> (if exitSide (f # gs) = []
         then exit_avg rt = 0 \<and> total_shares rt = max (shares (entrySide (f # gs))) 0
         else True)"
  unfolding buildRoundTrip_Cons by (simp add: shares_Nil)

text \<open>
  C5 as stated fails on a fill with a negative quantity, which \<^verbatim>\<open>parseFillsCsv\<close> lets
  through: a single Buy of \<open>-5\<close> at \<open>10\<close> is an entry-side fill, the weighted average
  over the entry side is \<open>10\<close>, and the entry price is \<open>0\<close>.
\<close>

theorem entry_price_zero_despite_entry_fills:
  "map_option entry_avg
     (buildRoundTrip [sampleFill ''09:30:00'' ''AAPL'' ''B'' 10 (-5) ''A1'' 0 0]
        ''2026-02-10'' ''AAPL'' None ''TR'') = Some 0
   \<and> entrySide [sampleFill ''09:30:00'' ''AAPL'' ''B'' 10 (-5) ''A1'' 0 0] \<noteq> []
   \<and> weightedAverage (entrySide [sampleFill ''09:30:00'' ''AAPL'' ''B'' 10 (-5) ''A1'' 0 0]) = 10"
  by code_simp

text \<open>
  With positive quantities and a first fill that is a Buy, a Sell or a SellShort, the entry
  side's quantities sum to more than zero, and the entry price is the weighted average.
\<close>

lemma shares_filter_nonneg:
  "list_all (\<lambda>f. 0 < qty f) fs \<Longrightarrow> 0 \<le> shares (filter P fs)"
  by (induction fs) (auto simp: shares_def)

lemma shares_filter_pos:
  "list_all (\<lambda>f. 0 < qty f) fs \<Longrightarrow> x \<in> set fs \<Longrightarrow> P x \<Longrightarrow> 0 < shares (filter P fs)"
proof (induction fs)
  case Nil
  then show ?case by simp
next
  case (Cons f fs)
  from Cons.prems(1) have n: "0 \<le> shares (filter P fs)" and q: "0 < qty f"
    by (simp_all add: shares_filter_nonneg)
  show ?case
  proof (cases "P f")
    case True
    with n q show ?thesis
      by (simp add: shares_def)
  next
    case False
    with Cons.prems have "x \<in> set fs"
      by auto
    with Cons have "0 < shares (filter P fs)"
      by simp
    with False show ?thesis
      by simp
  qed
qed

lemma entry_price_with_positive_quantities:
  assumes "list_all (\<lambda>x. 0 < qty x) (f # gs)"
    and "Fill.side f = ''B'' \<or> Fill.side f = ''S'' \<or> Fill.side f = ''SS''"
  shows "map_option entry_avg (buildRoundTrip (f # gs) date sy dir P)
           = Some (weightedAverage (entrySide (f # gs)))"
proof -
  have "0 < shares (entrySide (f # gs))"
  proof (cases "Fill.side f = ''B''")
    case True
    have "0 < shares (filter (\<lambda>x. Fill.side x = ''B'') (f # gs))"
      using assms(1) by (rule shares_filter_pos [where x = f]) (simp_all add: True)
    with True show ?thesis
      by (simp add: entrySide_def)
  next
    case False
    with assms(2) have s: "Fill.side f = ''S'' \<or> Fill.side f = ''SS''"
      by simp
    have "0 < shares (filter (\<lambda>x. Fill.side x = ''S'' \<or> Fill.side x = ''SS'') (f # gs))"
      using assms(1) by (rule shares_filter_pos [where x = f]) (simp_all add: s)
    with False show ?thesis
      by (simp add: entrySide_def)
  qed
  then show ?thesis
    unfolding buildRoundTrip_Cons by simp
qed

subsection \<open>Sorting\<close>

lemma sortBy_Nil: "sortBy cmp [] = []"
  by (simp add: sortBy_def)

lemma sortBy_Cons: "sortBy cmp (x # xs) = insertBy cmp x (sortBy cmp xs)"
  by (simp add: sortBy_def)

lemma mset_insertBy: "mset (insertBy cmp x ys) = add_mset x (mset ys)"
  by (induction ys) simp_all

lemma mset_sortBy: "mset (sortBy cmp xs) = mset xs"
  by (induction xs) (simp_all add: sortBy_Nil sortBy_Cons mset_insertBy)

lemma set_sortBy: "set (sortBy cmp xs) = set xs"
  using mset_sortBy [of cmp xs] by (metis set_mset_mset)

lemma insertBy_map:
  assumes "\<And>a b. cmp' (g a) (g b) = cmp a b"
  shows "insertBy cmp' (g x) (map g ys) = map g (insertBy cmp x ys)"
  by (induction ys) (simp_all add: assms)

lemma sortBy_map:
  assumes "\<And>a b. cmp' (g a) (g b) = cmp a b"
  shows "sortBy cmp' (map g xs) = map g (sortBy cmp xs)"
  by (induction xs) (simp_all add: sortBy_Nil sortBy_Cons insertBy_map [of cmp' g cmp, OF assms])

text \<open>
  With a comparator that is the difference of a key, the sort is the library's stable
  insertion sort by that key.
\<close>

lemma insertBy_insort_key:
  assumes "\<And>y. y \<in> set ys \<Longrightarrow> comesAfter (cmp x y) = (k y < (k x :: real))"
  shows "insertBy cmp x ys = insort_key k x ys"
  using assms by (induction ys) (auto simp: not_less)

lemma sortBy_sort_key:
  assumes "\<And>x y. x \<in> set xs \<Longrightarrow> y \<in> set xs \<Longrightarrow> comesAfter (cmp x y) = (k y < (k x :: real))"
  shows "sortBy cmp xs = sort_key k xs"
  using assms
proof (induction xs)
  case Nil
  show ?case by (simp add: sortBy_Nil)
next
  case (Cons x xs)
  have "sortBy cmp xs = sort_key k xs"
    by (rule Cons.IH) (simp add: Cons.prems)
  moreover have "insertBy cmp x (sort_key k xs) = insort_key k x (sort_key k xs)"
    by (rule insertBy_insort_key) (simp add: Cons.prems)
  ultimately show ?case
    by (simp add: sortBy_Cons)
qed

lemma comesAfter_byEntryTime:
  "parses x \<Longrightarrow> parses y \<Longrightarrow> comesAfter (byEntryTime x y) = (entryMinutes y < entryMinutes x)"
  by (auto simp: parses_def byEntryTime_def subtract_def comesAfter_def entryMinutes_def)

lemma sortBy_byEntryTime:
  "list_all parses xs \<Longrightarrow> sortBy byEntryTime xs = sort_key entryMinutes xs"
  by (rule sortBy_sort_key) (simp add: comesAfter_byEntryTime list_all_iff)

subsection \<open>Maps in insertion order\<close>

lemma keys_pushTo: "map fst (pushTo k ws m) = map fst m"
  by (induction k ws m rule: pushTo.induct) auto

lemma set_keys_ensureKey: "set (map fst (ensureKey k m)) = insert k (set (map fst m))"
  by (induction k m rule: ensureKey.induct) auto

lemma distinct_keys_ensureKey: "distinct (map fst m) \<Longrightarrow> distinct (map fst (ensureKey k m))"
  by (induction k m rule: ensureKey.induct) (auto simp: set_keys_ensureKey [simplified])

lemma distinct_keys_add:
  "distinct (map fst m) \<Longrightarrow> distinct (map fst (pushTo k ws (ensureKey k m)))"
  by (simp add: keys_pushTo distinct_keys_ensureKey)

lemma values_add:
  "mset (concat (map snd (pushTo k ws (ensureKey k m)))) = mset (concat (map snd m)) + mset ws"
  by (induction k m rule: ensureKey.induct) auto

lemma keyed_add:
  "keyed T m \<Longrightarrow> list_all (\<lambda>w. T w = k) ws \<Longrightarrow> keyed T (pushTo k ws (ensureKey k m))"
  by (induction k m rule: ensureKey.induct) (auto simp: keyed_def)

lemma map_values_add:
  "map (\<lambda>(k, vs). (k, map g vs)) (pushTo k ws (ensureKey k m))
     = pushTo k (map g ws) (ensureKey k (map (\<lambda>(k, vs). (k, map g vs)) m))"
  by (induction k m rule: ensureKey.induct) auto

subsection \<open>The round trips of one group\<close>

lemma netPosition_Nil: "netPosition [] = 0"
  by (simp add: netPosition_def)

lemma netPosition_Cons: "netPosition (f # fs) = signedQty f + netPosition fs"
  by (simp add: netPosition_def)

lemma netPosition_append: "netPosition (xs @ ys) = netPosition xs + netPosition ys"
  by (simp add: netPosition_def)

lemma closedRuns_Cons:
  "closedRuns (p, c) (f # gfs) =
     (if p + signedQty f = 0
      then ((c @ [f]) # fst (closedRuns (0, []) gfs), snd (closedRuns (0, []) gfs))
      else closedRuns (p + signedQty f, c @ [f]) gfs)"
  by (simp add: Let_def split: prod.splits)

text \<open>The loop hands exactly the buffers of \<^const>\<open>closedRuns\<close> to \<^verbatim>\<open>buildRoundTrip\<close>.\<close>

lemma trackPosition_closedRuns:
  "trackPosition d s dir P (p, c, out) gfs =
     (p + netPosition gfs, snd (closedRuns (p, c) gfs),
      out @ concat (map (\<lambda>r. pushIf (buildRoundTrip r d s dir P)) (fst (closedRuns (p, c) gfs))))"
proof (induction gfs arbitrary: p c out)
  case Nil
  show ?case by (simp add: netPosition_Nil)
next
  case (Cons f gfs)
  have q: "(if Fill.side f = ''B'' then p + qty f else p - qty f) = p + signedQty f"
    by (simp add: signedQty_def)
  show ?case
    unfolding closedRuns_Cons trackPosition.simps Let_def q Cons.IH netPosition_Cons
    by simp
qed

lemma closedRuns_concat:
  "concat (fst (closedRuns (p, c) gfs)) @ snd (closedRuns (p, c) gfs) = c @ gfs"
proof (induction gfs arbitrary: p c)
  case Nil
  show ?case by simp
next
  case (Cons f gfs)
  show ?case
    unfolding closedRuns_Cons using Cons.IH [of 0 "[]"] Cons.IH [of "p + signedQty f" "c @ [f]"]
    by simp
qed

lemma closedRuns_nonempty:
  "list_all (\<lambda>r. r \<noteq> []) (fst (closedRuns (p, c) gfs))"
proof (induction gfs arbitrary: p c)
  case Nil
  show ?case by simp
next
  case (Cons f gfs)
  show ?case
    unfolding closedRuns_Cons using Cons.IH [of 0 "[]"] Cons.IH [of "p + signedQty f" "c @ [f]"]
    by simp
qed

lemma closedRuns_flat:
  "p = netPosition c \<Longrightarrow> list_all (\<lambda>r. netPosition r = 0) (fst (closedRuns (p, c) gfs))"
proof (induction gfs arbitrary: p c)
  case Nil
  show ?case by simp
next
  case (Cons f gfs)
  have a: "list_all (\<lambda>r. netPosition r = 0) (fst (closedRuns (0, []) gfs))"
    by (rule Cons.IH) (simp add: netPosition_Nil)
  have b: "list_all (\<lambda>r. netPosition r = 0) (fst (closedRuns (p + signedQty f, c @ [f]) gfs))"
    by (rule Cons.IH) (simp add: Cons.prems netPosition_append netPosition_Cons netPosition_Nil)
  show ?case
    unfolding closedRuns_Cons using a b Cons.prems
    by (simp add: netPosition_append netPosition_Cons netPosition_Nil)
qed

lemma closedRuns_open:
  "p = netPosition c \<Longrightarrow> c = [] \<or> p \<noteq> 0 \<Longrightarrow>
     snd (closedRuns (p, c) gfs) = [] \<or> netPosition (snd (closedRuns (p, c) gfs)) \<noteq> 0"
proof (induction gfs arbitrary: p c)
  case Nil
  then show ?case by auto
next
  case (Cons f gfs)
  have a: "snd (closedRuns (0, []) gfs) = [] \<or> netPosition (snd (closedRuns (0, []) gfs)) \<noteq> 0"
    by (rule Cons.IH) (simp_all add: netPosition_Nil)
  show ?case
  proof (cases "p + signedQty f = 0")
    case True
    with a show ?thesis
      unfolding closedRuns_Cons by simp
  next
    case False
    have "snd (closedRuns (p + signedQty f, c @ [f]) gfs) = []
        \<or> netPosition (snd (closedRuns (p + signedQty f, c @ [f]) gfs)) \<noteq> 0"
      using False Cons.prems(1)
      by (intro Cons.IH) (simp_all add: netPosition_append netPosition_Cons netPosition_Nil)
    with False show ?thesis
      unfolding closedRuns_Cons by simp
  qed
qed

lemma groupRoundTrips_runs:
  "groupRoundTrips d s dir P gfs =
     concat (map (\<lambda>r. pushIf (buildRoundTrip r d s dir P)) (fst (closedRuns (0, []) gfs)))
     @ (if snd (closedRuns (0, []) gfs) = [] then []
        else pushIf (buildRoundTrip (snd (closedRuns (0, []) gfs)) d s dir ''TR''))"
  by (simp add: groupRoundTrips_def trackPosition_closedRuns)

lemma roundTripFills_eq:
  "roundTripFills g = fst (closedRuns (0, []) g)
     @ (if snd (closedRuns (0, []) g) = [] then [] else [snd (closedRuns (0, []) g)])"
  by (simp add: roundTripFills_def split: prod.splits)

lemma concat_roundTripFills: "concat (roundTripFills g) = g"
  using closedRuns_concat [of 0 "[]" g]
  by (cases "snd (closedRuns (0, []) g) = []") (simp_all add: roundTripFills_eq)

lemma roundTripFills_nonempty: "list_all (\<lambda>r. r \<noteq> []) (roundTripFills g)"
  using closedRuns_nonempty [of 0 "[]" g] by (simp add: roundTripFills_eq)

lemma runs_map:
  assumes "\<And>r. r \<noteq> [] \<Longrightarrow> map h (pushIf (buildRoundTrip r d s dir P)) = [H r]"
  shows "list_all (\<lambda>r. r \<noteq> []) runs \<Longrightarrow>
         map h (concat (map (\<lambda>r. pushIf (buildRoundTrip r d s dir P)) runs)) = map H runs"
  by (induction runs) (simp_all add: assms)

lemma groupRoundTrips_map:
  assumes "\<And>r P'. r \<noteq> [] \<Longrightarrow> map h (pushIf (buildRoundTrip r d s dir P')) = [H r]"
  shows "map h (groupRoundTrips d s dir P g) = map H (roundTripFills g)"
  unfolding groupRoundTrips_runs roundTripFills_eq
  using runs_map [of h d s dir P H "fst (closedRuns (0, []) g)", OF assms closedRuns_nonempty]
  by (simp add: assms)

subsection \<open>The round trips of a day\<close>

lemma groupFills_acc:
  "mset (concat (map snd (foldl (\<lambda>groups fill. pushTo (groupKey fill) [fill] (ensureKey (groupKey fill) groups)) acc xs)))
     = mset (concat (map snd acc)) + mset xs"
  by (induction xs arbitrary: acc) (simp_all add: values_add)

lemma groupFills_mset: "mset (concat (map snd (groupFills xs))) = mset xs"
  by (simp add: groupFills_def groupFills_acc)

lemma collectRoundTrips_acc:
  "mset (concat (map snd (foldl (\<lambda>symbolRoundTrips (key, groupFills').
              pushTo (keySymbol key)
                (groupRoundTrips date (keySymbol key) dir P groupFills')
                (ensureKey (keySymbol key) symbolRoundTrips)) acc groups)))
     = mset (concat (map snd acc))
       + mset (concat (map (\<lambda>(key, g). groupRoundTrips date (keySymbol key) dir P g) groups))"
  by (induction groups arbitrary: acc) (simp_all add: values_add split: prod.splits)

lemma collectRoundTrips_mset:
  "mset (concat (map snd (collectRoundTrips date dir P groups)))
     = mset (concat (map (\<lambda>(key, g). groupRoundTrips date (keySymbol key) dir P g) groups))"
  by (simp add: collectRoundTrips_def collectRoundTrips_acc)

lemma foldl_append_concat:
  "foldl (\<lambda>allRoundTrips (s, rts). allRoundTrips @ F s rts) acc srt
     = acc @ concat (map (\<lambda>(s, rts). F s rts) srt)"
  by (induction srt arbitrary: acc) (simp_all split: prod.splits)

lemma numberRoundTrips_concat:
  "numberRoundTrips date srt = concat (map (\<lambda>(s, rts). assignIds date s (sortBy byEntryTime rts)) srt)"
  unfolding numberRoundTrips_def
  using foldl_append_concat [of "\<lambda>s rts. assignIds date s (sortBy byEntryTime rts)" "[]" srt]
  by simp

lemma map_assignIds:
  assumes "\<And>rt x. h (rt\<lparr>id' := x\<rparr>) = h rt"
  shows "map h (assignIds date s rts) = map h rts"
proof -
  have "map h (assignIds date s rts) = map (h \<circ> snd) (enumerate 0 rts)"
    by (simp add: assignIds_def assms split_def comp_def)
  also have "\<dots> = map h (map snd (enumerate 0 rts))"
    by (simp only: map_map)
  also have "\<dots> = map h rts"
    by (simp only: map_snd_enumerate)
  finally show ?thesis .
qed

lemma numberRoundTrips_mset:
  assumes "\<And>rt x. h (rt\<lparr>id' := x\<rparr>) = h rt"
  shows "mset (map h (numberRoundTrips date srt)) = mset (map h (concat (map snd srt)))"
proof (induction srt)
  case Nil
  show ?case by (simp add: numberRoundTrips_concat)
next
  case (Cons a srt)
  obtain s rts where a: "a = (s, rts)" by (cases a)
  have "mset (map h (assignIds date s (sortBy byEntryTime rts))) = mset (map h rts)"
    unfolding map_assignIds [of h, OF assms] by (simp add: mset_sortBy)
  with Cons show ?case
    by (simp add: numberRoundTrips_concat a)
qed

text \<open>
  Up to their order and their ids, the round trips of the day are those of the groups.
\<close>

lemma output_mset:
  assumes "\<And>rt x. h (rt\<lparr>id' := x\<rparr>) = h rt"
  shows "mset (map h (groupFillsIntoRoundTrips fs date dir P))
       = mset (map h (concat (map (\<lambda>(key, g). groupRoundTrips date (keySymbol key) dir P g)
                                  (groupFills (sortBy byTime fs)))))"
proof -
  have "mset (map h (groupFillsIntoRoundTrips fs date dir P))
      = mset (map h (numberRoundTrips date (collectRoundTrips date dir P (groupFills (sortBy byTime fs)))))"
    by (simp add: groupFillsIntoRoundTrips_def Let_def mset_sortBy)
  also have "\<dots> = mset (map h (concat (map snd (collectRoundTrips date dir P (groupFills (sortBy byTime fs))))))"
    by (rule numberRoundTrips_mset [of h, OF assms])
  also have "\<dots> = image_mset h (mset (concat (map snd (collectRoundTrips date dir P (groupFills (sortBy byTime fs))))))"
    by simp
  finally show ?thesis
    by (simp add: collectRoundTrips_mset)
qed

lemma all_groups_map:
  assumes "\<And>r s P'. r \<noteq> [] \<Longrightarrow> map h (pushIf (buildRoundTrip r d s dir P')) = [H r]"
  shows "map h (concat (map (\<lambda>(key, g). groupRoundTrips d (keySymbol key) dir P g) groups))
       = map H (concat (map (\<lambda>(key, g). roundTripFills g) groups))"
proof (induction groups)
  case Nil
  show ?case by simp
next
  case (Cons a groups)
  obtain key g where a: "a = (key, g)" by (cases a)
  have "map h (groupRoundTrips d (keySymbol key) dir P g) = map H (roundTripFills g)"
    by (rule groupRoundTrips_map) (rule assms)
  with Cons show ?case
    by (simp add: a)
qed

text \<open>
  A field of the round trips of the day that is computed from a round trip's fills, read off
  the buffers.
\<close>

lemma output_fills:
  assumes "\<And>rt x. h (rt\<lparr>id' := x\<rparr>) = h rt"
    and "\<And>r s P'. r \<noteq> [] \<Longrightarrow> map h (pushIf (buildRoundTrip r date s dir P')) = [H r]"
  shows "mset (map h (groupFillsIntoRoundTrips fs date dir P)) = mset (map H (allRoundTripFills fs))"
proof -
  have "mset (map h (groupFillsIntoRoundTrips fs date dir P))
      = mset (map h (concat (map (\<lambda>(key, g). groupRoundTrips date (keySymbol key) dir P g)
                                  (groupFills (sortBy byTime fs)))))"
    by (rule output_mset) (rule assms(1))
  also have "map h (concat (map (\<lambda>(key, g). groupRoundTrips date (keySymbol key) dir P g)
                                  (groupFills (sortBy byTime fs))))
      = map H (allRoundTripFills fs)"
    unfolding allRoundTripFills_def by (rule all_groups_map) (rule assms(2))
  finally show ?thesis .
qed

lemma concat_all_groups:
  "concat (concat (map (\<lambda>(key, g). roundTripFills g) groups)) = concat (map snd groups)"
  by (induction groups) (auto simp: concat_roundTripFills)

lemma allRoundTripFills_mset: "mset (concat (allRoundTripFills fs)) = mset fs"
  by (simp add: allRoundTripFills_def concat_all_groups groupFills_mset mset_sortBy)

lemma groupFillsIntoRoundTrips_Nil: "groupFillsIntoRoundTrips [] date dir P = []"
  by (simp add: groupFillsIntoRoundTrips_def sortBy_Nil groupFills_def collectRoundTrips_def
      numberRoundTrips_def)

lemma build_id:
  "r \<noteq> [] \<Longrightarrow> map id' (pushIf (buildRoundTrip r d s dir P)) = [[]]"
  by (cases r) (simp_all add: buildRoundTrip_Cons pushIf_def)

lemma groupRoundTrips_ids: "list_all (\<lambda>rt. id' rt = []) (groupRoundTrips d s dir P g)"
proof -
  have "map id' (groupRoundTrips d s dir P g) = map (\<lambda>_. []) (roundTripFills g)"
    by (rule groupRoundTrips_map) (rule build_id)
  then have "set (map id' (groupRoundTrips d s dir P g)) \<subseteq> {[]}"
    by auto
  then show ?thesis
    by (auto simp: list_all_iff)
qed

lemma map_erase_id: "list_all (\<lambda>rt. id' rt = []) rts \<Longrightarrow> map (\<lambda>rt. rt\<lparr>id' := []\<rparr>) rts = rts"
  by (induction rts) simp_all

lemma all_groups_ids:
  "list_all (\<lambda>rt. id' rt = [])
     (concat (map (\<lambda>(key, g). groupRoundTrips d (keySymbol key) dir P g) groups))"
  using groupRoundTrips_ids by (induction groups) (auto simp: list_all_iff)

lemma output_of_groups:
  "mset (map (\<lambda>rt. rt\<lparr>id' := []\<rparr>) (groupFillsIntoRoundTrips fs date dir P))
     = mset (concat (map (\<lambda>(key, g). groupRoundTrips date (keySymbol key) dir P g)
                      (groupFills (sortBy byTime fs))))"
proof -
  have "mset (map (\<lambda>rt. rt\<lparr>id' := []\<rparr>) (groupFillsIntoRoundTrips fs date dir P))
     = mset (map (\<lambda>rt. rt\<lparr>id' := []\<rparr>)
         (concat (map (\<lambda>(key, g). groupRoundTrips date (keySymbol key) dir P g)
                      (groupFills (sortBy byTime fs)))))"
    by (rule output_mset) simp
  then show ?thesis
    by (simp only: map_erase_id [OF all_groups_ids])
qed

text \<open>
  C3. The round trips of a day are, before they get their ids, the round trips of its
  groups. Those of a group are built from the closed buffers of the group, in order, and
  then from its open buffer if that is not empty: the open round trip is the last one of
  the group and there is at most one. The fills of each closed round trip have signed
  quantities that sum to zero (a Buy counting \<open>+qty\<close>, a Sell or SellShort \<open>-qty\<close>);
  those of the open one do not. The buffers are the group's fills, in order, and the
  \<open>n\<close>-th round trip has as many fills as the \<open>n\<close>-th buffer.
\<close>

theorem position_closure:
  "mset (map (\<lambda>rt. rt\<lparr>id' := []\<rparr>) (groupFillsIntoRoundTrips fs date dir P))
     = mset (concat (map (\<lambda>(key, g). groupRoundTrips date (keySymbol key) dir P g)
                      (groupFills (sortBy byTime fs))))
   \<and> groupRoundTrips date sy dir P g =
       concat (map (\<lambda>r. pushIf (buildRoundTrip r date sy dir P)) (closedFills g))
       @ (if openFills g = [] then [] else pushIf (buildRoundTrip (openFills g) date sy dir ''TR''))
   \<and> list_all (\<lambda>r. netPosition r = 0) (closedFills g)
   \<and> (openFills g = [] \<or> netPosition (openFills g) \<noteq> 0)
   \<and> roundTripFills g = closedFills g @ (if openFills g = [] then [] else [openFills g])
   \<and> concat (roundTripFills g) = g
   \<and> map fills (groupRoundTrips date sy dir P g) = map length (roundTripFills g)"
proof -
  have a: "map fills (groupRoundTrips date sy dir P g) = map length (roundTripFills g)"
    by (rule groupRoundTrips_map) (rule build_fills)
  have b: "list_all (\<lambda>r. netPosition r = 0) (closedFills g)"
    unfolding closedFills_def by (rule closedRuns_flat) (simp add: netPosition_Nil)
  have c: "openFills g = [] \<or> netPosition (openFills g) \<noteq> 0"
    unfolding openFills_def by (rule closedRuns_open) (simp_all add: netPosition_Nil)
  have d: "groupRoundTrips date sy dir P g =
     concat (map (\<lambda>r. pushIf (buildRoundTrip r date sy dir P)) (closedFills g))
     @ (if openFills g = [] then [] else pushIf (buildRoundTrip (openFills g) date sy dir ''TR''))"
    unfolding closedFills_def openFills_def by (rule groupRoundTrips_runs)
  have e: "roundTripFills g = closedFills g @ (if openFills g = [] then [] else [openFills g])"
    unfolding closedFills_def openFills_def by (rule roundTripFills_eq)
  from a b c d e concat_roundTripFills [of g] output_of_groups [of fs date dir P] show ?thesis
    by blast
qed

text \<open>
  A Buy of 100, a Sell of 100 and then a SellShort of 50 that is not covered: a closed
  round trip of two fills and net quantity zero, then an open one of net quantity \<open>-50\<close>.
\<close>

theorem position_closure_witness:
  "list_all (\<lambda>r. netPosition r = 0)
     (closedFills [sampleFill ''09:30:00'' ''AAPL'' ''B'' 150 100 ''A1'' 0 0,
                   sampleFill ''09:45:00'' ''AAPL'' ''S'' 152.5 100 ''A1'' 1 250,
                   sampleFill ''10:00:00'' ''AAPL'' ''SS'' 153 50 ''A1'' 0 0])
   \<and> map length (closedFills [sampleFill ''09:30:00'' ''AAPL'' ''B'' 150 100 ''A1'' 0 0,
                   sampleFill ''09:45:00'' ''AAPL'' ''S'' 152.5 100 ''A1'' 1 250,
                   sampleFill ''10:00:00'' ''AAPL'' ''SS'' 153 50 ''A1'' 0 0]) = [2]
   \<and> openFills [sampleFill ''09:30:00'' ''AAPL'' ''B'' 150 100 ''A1'' 0 0,
                   sampleFill ''09:45:00'' ''AAPL'' ''S'' 152.5 100 ''A1'' 1 250,
                   sampleFill ''10:00:00'' ''AAPL'' ''SS'' 153 50 ''A1'' 0 0]
       = [sampleFill ''10:00:00'' ''AAPL'' ''SS'' 153 50 ''A1'' 0 0]
   \<and> netPosition [sampleFill ''10:00:00'' ''AAPL'' ''SS'' 153 50 ''A1'' 0 0] = - 50
   \<and> map fills (groupRoundTrips ''2026-02-10'' ''AAPL'' None ''TR''
         [sampleFill ''09:30:00'' ''AAPL'' ''B'' 150 100 ''A1'' 0 0,
          sampleFill ''09:45:00'' ''AAPL'' ''S'' 152.5 100 ''A1'' 1 250,
          sampleFill ''10:00:00'' ''AAPL'' ''SS'' 153 50 ''A1'' 0 0]) = [2, 1]"
proof -
  let ?g = "[sampleFill ''09:30:00'' ''AAPL'' ''B'' 150 100 ''A1'' 0 0,
             sampleFill ''09:45:00'' ''AAPL'' ''S'' 152.5 100 ''A1'' 1 250,
             sampleFill ''10:00:00'' ''AAPL'' ''SS'' 153 50 ''A1'' 0 0]"
  from position_closure [of "[]" "''2026-02-10''" None "''TR''" "''AAPL''" ?g]
  have a: "list_all (\<lambda>r. netPosition r = 0) (closedFills ?g)"
    and b: "map fills (groupRoundTrips ''2026-02-10'' ''AAPL'' None ''TR'' ?g)
              = map length (roundTripFills ?g)"
    by blast+
  have c: "map length (closedFills ?g) = [2]"
    by code_simp
  have d: "openFills ?g = [sampleFill ''10:00:00'' ''AAPL'' ''SS'' 153 50 ''A1'' 0 0]"
    by code_simp
  have e: "netPosition [sampleFill ''10:00:00'' ''AAPL'' ''SS'' 153 50 ''A1'' 0 0] = - 50"
    by code_simp
  have f: "map length (roundTripFills ?g) = [2, 1]"
    by code_simp
  from a b c d e f show ?thesis
    by simp
qed

text \<open>
  C10. The buffers from which the round trips of a day are built hold every input fill
  exactly once; the round trips are as many as the buffers and their \<open>fills\<close> fields are
  the buffers' lengths, so these fields sum to the number of input fills; and no fill
  gives no round trip.
\<close>

theorem fills_partitioned:
  "mset (concat (allRoundTripFills fs)) = mset fs
   \<and> mset (map fills (groupFillsIntoRoundTrips fs date dir P)) = mset (map length (allRoundTripFills fs))
   \<and> sum_list (map fills (groupFillsIntoRoundTrips fs date dir P)) = length fs
   \<and> groupFillsIntoRoundTrips [] date dir P = []"
proof -
  have a: "mset (map fills (groupFillsIntoRoundTrips fs date dir P)) = mset (map length (allRoundTripFills fs))"
    by (rule output_fills) (simp_all add: build_fills)
  have "sum_list (map fills (groupFillsIntoRoundTrips fs date dir P))
      = sum_list (map length (allRoundTripFills fs))"
    by (rule sum_list_mset_cong) (rule a)
  also have "\<dots> = length (concat (allRoundTripFills fs))"
    by (simp add: length_concat)
  also have "\<dots> = size (mset (concat (allRoundTripFills fs)))"
    by simp
  also have "\<dots> = length fs"
    by (simp only: allRoundTripFills_mset size_mset)
  finally have b: "sum_list (map fills (groupFillsIntoRoundTrips fs date dir P)) = length fs" .
  from a b allRoundTripFills_mset [of fs] groupFillsIntoRoundTrips_Nil [of date dir P] show ?thesis
    by blast
qed

text \<open>
  C1, as amended. The \<open>net_pnl\<close> of each round trip is the rounded sum of the reported P&L
  of its fills. When the reported P&L of every fill of the day is a whole number of cents,
  the \<open>net_pnl\<close> of the day's round trips sum to the rounded sum of the reported P&L of
  all fills (which is then that sum itself).
\<close>

theorem net_pnl_conservation:
  "mset (map net_pnl (groupFillsIntoRoundTrips fs date dir P))
     = mset (map (\<lambda>r. round2 (sum_list (map Fill.pnl r))) (allRoundTripFills fs))
   \<and> (list_all (\<lambda>f. wholeCents (Fill.pnl f)) fs \<longrightarrow>
        sum_list (map net_pnl (groupFillsIntoRoundTrips fs date dir P))
          = round2 (sum_list (map Fill.pnl fs)))"
proof (intro conjI impI)
  show a: "mset (map net_pnl (groupFillsIntoRoundTrips fs date dir P))
      = mset (map (\<lambda>r. round2 (sum_list (map Fill.pnl r))) (allRoundTripFills fs))"
    by (rule output_fills) (simp_all add: build_net_pnl round2_idem)
  assume w: "list_all (\<lambda>f. wholeCents (Fill.pnl f)) fs"
  have s: "set (concat (allRoundTripFills fs)) = set fs"
    using allRoundTripFills_mset [of fs] by (metis set_mset_mset)
  have r: "round2 (sum_list (map Fill.pnl r)) = sum_list (map Fill.pnl r)"
    if "r \<in> set (allRoundTripFills fs)" for r
  proof -
    from that s have "set r \<subseteq> set fs"
      by auto
    with w have "list_all (\<lambda>f. wholeCents (Fill.pnl f)) r"
      by (auto simp: list_all_iff)
    then show ?thesis
      by (intro round2_wholeCents wholeCents_sum_list)
  qed
  have "sum_list (map net_pnl (groupFillsIntoRoundTrips fs date dir P))
      = sum_list (map (\<lambda>r. round2 (sum_list (map Fill.pnl r))) (allRoundTripFills fs))"
    by (rule sum_list_mset_cong) (rule a)
  also have "\<dots> = sum_list (map (\<lambda>r. sum_list (map Fill.pnl r)) (allRoundTripFills fs))"
    using r by (simp cong: map_cong)
  also have "\<dots> = sum_list (map Fill.pnl (concat (allRoundTripFills fs)))"
    by (rule sum_list_concat_map)
  also have "\<dots> = sum_list (map Fill.pnl fs)"
    by (rule sum_list_mset_cong) (simp add: allRoundTripFills_mset)
  also have "\<dots> = round2 (sum_list (map Fill.pnl fs))"
    using w by (simp add: round2_wholeCents wholeCents_sum_list)
  finally show "sum_list (map net_pnl (groupFillsIntoRoundTrips fs date dir P))
          = round2 (sum_list (map Fill.pnl fs))" .
qed

text \<open>
  The scenario of the specification: a Buy of 100 at 150.00 and a Sell of 100 at 152.50
  with a reported P&L of 250.00, listed latest first.
\<close>

theorem net_pnl_conservation_witness:
  "list_all (\<lambda>f. wholeCents (Fill.pnl f))
     [sampleFill ''09:45:00'' ''AAPL'' ''S'' 152.5 100 ''A1'' 1 250,
      sampleFill ''09:30:00'' ''AAPL'' ''B'' 150 100 ''A1'' 0 0]
   \<and> sum_list (map net_pnl (groupFillsIntoRoundTrips
        [sampleFill ''09:45:00'' ''AAPL'' ''S'' 152.5 100 ''A1'' 1 250,
         sampleFill ''09:30:00'' ''AAPL'' ''B'' 150 100 ''A1'' 0 0] ''2026-02-10'' None ''TR'')) = 250"
proof -
  have h: "list_all (\<lambda>f. wholeCents (Fill.pnl f))
     [sampleFill ''09:45:00'' ''AAPL'' ''S'' 152.5 100 ''A1'' 1 250,
      sampleFill ''09:30:00'' ''AAPL'' ''B'' 150 100 ''A1'' 0 0]"
    by code_simp
  have v: "round2 (sum_list (map Fill.pnl
     [sampleFill ''09:45:00'' ''AAPL'' ''S'' 152.5 100 ''A1'' 1 250,
      sampleFill ''09:30:00'' ''AAPL'' ''B'' 150 100 ''A1'' 0 0])) = 250"
    by code_simp
  from net_pnl_conservation [of "[sampleFill ''09:45:00'' ''AAPL'' ''S'' 152.5 100 ''A1'' 1 250,
      sampleFill ''09:30:00'' ''AAPL'' ''B'' 150 100 ''A1'' 0 0]" "''2026-02-10''" None "''TR''"] h v
  show ?thesis
    by simp
qed

text \<open>
  C1 as stated fails when a reported P&L has a fraction of a cent. Two round trips, one in
  AAPL with a P&L of 12.344 and one in MSFT with 7.344: the \<open>net_pnl\<close> are 12.34 and 7.34
  and sum to 19.68, the rounded sum of the fills' P&L is 19.69.
\<close>

theorem net_pnl_sum_is_not_the_rounded_total:
  "sum_list (map net_pnl (groupFillsIntoRoundTrips
        [sampleFill ''09:30:00'' ''AAPL'' ''B'' 150 100 ''A1'' 0 0,
         sampleFill ''09:40:00'' ''AAPL'' ''S'' 150.12 100 ''A1'' 0 12.344,
         sampleFill ''09:31:00'' ''MSFT'' ''B'' 300 100 ''A1'' 0 0,
         sampleFill ''09:50:00'' ''MSFT'' ''S'' 300.07 100 ''A1'' 0 7.344] ''2026-02-10'' None ''TR''))
     = 19.68
   \<and> round2 (sum_list (map Fill.pnl
        [sampleFill ''09:30:00'' ''AAPL'' ''B'' 150 100 ''A1'' 0 0,
         sampleFill ''09:40:00'' ''AAPL'' ''S'' 150.12 100 ''A1'' 0 12.344,
         sampleFill ''09:31:00'' ''MSFT'' ''B'' 300 100 ''A1'' 0 0,
         sampleFill ''09:50:00'' ''MSFT'' ''S'' 300.07 100 ''A1'' 0 7.344])) = 19.69"
  by code_simp

subsection \<open>The chart directory\<close>

lemma groupRoundTrips_no_dir:
  "groupRoundTrips d s None P g = map eraseChart (groupRoundTrips d s dir P g)"
  unfolding groupRoundTrips_runs build_no_dir [of _ d s _ dir] pushIf_map_option
  by (simp add: map_concat comp_def)

lemma collectRoundTrips_no_dir_acc:
  "foldl (\<lambda>symbolRoundTrips (key, groupFills').
              pushTo (keySymbol key)
                (groupRoundTrips date (keySymbol key) None P groupFills')
                (ensureKey (keySymbol key) symbolRoundTrips))
      (map (\<lambda>(k, vs). (k, map eraseChart vs)) acc) groups
   = map (\<lambda>(k, vs). (k, map eraseChart vs))
      (foldl (\<lambda>symbolRoundTrips (key, groupFills').
              pushTo (keySymbol key)
                (groupRoundTrips date (keySymbol key) dir P groupFills')
                (ensureKey (keySymbol key) symbolRoundTrips)) acc groups)"
proof (induction groups arbitrary: acc)
  case Nil
  show ?case by simp
next
  case (Cons a groups)
  obtain key g where a: "a = (key, g)" by (cases a)
  show ?case
    unfolding a foldl_Cons prod.case
    unfolding groupRoundTrips_no_dir [of date _ P g dir] map_values_add [symmetric]
    by (rule Cons.IH)
qed

lemma collectRoundTrips_no_dir:
  "collectRoundTrips date None P groups
     = map (\<lambda>(k, vs). (k, map eraseChart vs)) (collectRoundTrips date dir P groups)"
  unfolding collectRoundTrips_def
  using collectRoundTrips_no_dir_acc [of date P "[]" groups dir] by simp

lemma byEntryTime_eraseChart: "byEntryTime (eraseChart a) (eraseChart b) = byEntryTime a b"
  by (simp add: byEntryTime_def eraseChart_def)

lemma enumerate_map: "enumerate n (map g xs) = map (\<lambda>(i, x). (i, g x)) (enumerate n xs)"
  by (induction xs arbitrary: n) simp_all

lemma assignIds_eraseChart:
  "assignIds date s (map eraseChart rts) = map eraseChart (assignIds date s rts)"
  by (simp add: assignIds_def enumerate_map split_def eraseChart_def)

lemma numberRoundTrips_eraseChart:
  "numberRoundTrips date (map (\<lambda>(k, vs). (k, map eraseChart vs)) srt)
     = map eraseChart (numberRoundTrips date srt)"
  unfolding numberRoundTrips_concat
  by (induction srt)
     (simp_all add: split_def assignIds_eraseChart
        sortBy_map [of byEntryTime eraseChart byEntryTime, OF byEntryTime_eraseChart])

lemma reconstruction_no_dir:
  "groupFillsIntoRoundTrips fs date None P = map eraseChart (groupFillsIntoRoundTrips fs date dir P)"
  unfolding groupFillsIntoRoundTrips_def Let_def
    collectRoundTrips_no_dir [of date P _ dir] numberRoundTrips_eraseChart
  by (rule sortBy_map) (rule byEntryTime_eraseChart)

text \<open>
  C7, as amended. For the same fills, date and training prefix, two runs of the
  reconstruction give the same list of round trips in every field but \<open>chart\<close>, whatever
  the chart directory holds at each run: the same round trips in the same order, with the
  same ids and the same rounded amounts.
\<close>

theorem reconstruction_determined_up_to_chart:
  "map eraseChart (groupFillsIntoRoundTrips fs date dir1 P)
     = map eraseChart (groupFillsIntoRoundTrips fs date dir2 P)"
  by (simp add: reconstruction_no_dir [symmetric])

text \<open>
  C7 as stated fails: the fills, the date and the configuration do not determine the
  \<open>chart\<close> field, which is read from the directory. The same Buy reconstructed before and
  after a screenshot is saved there gives two different lists.
\<close>

theorem chart_depends_on_the_directory:
  "groupFillsIntoRoundTrips [sampleFill ''09:30:00'' ''AAPL'' ''B'' 150 100 ''A1'' 0 0]
       ''2026-02-10'' (Some []) ''TR''
   \<noteq> groupFillsIntoRoundTrips [sampleFill ''09:30:00'' ''AAPL'' ''B'' 150 100 ''A1'' 0 0]
       ''2026-02-10'' (Some [''AAPL-2026-02-10-1.png'']) ''TR''
   \<and> map chart (groupFillsIntoRoundTrips [sampleFill ''09:30:00'' ''AAPL'' ''B'' 150 100 ''A1'' 0 0]
       ''2026-02-10'' (Some []) ''TR'') = [None]
   \<and> map chart (groupFillsIntoRoundTrips [sampleFill ''09:30:00'' ''AAPL'' ''B'' 150 100 ''A1'' 0 0]
       ''2026-02-10'' (Some [''AAPL-2026-02-10-1.png'']) ''TR'') = [Some ''AAPL-2026-02-10-1.png'']"
  by code_simp

subsection \<open>The account type of an open round trip\<close>

text \<open>
  Given a prefix, \<^verbatim>\<open>buildRoundTrip\<close> classifies by the rule: training when every account of
  the fills starts with the prefix, live when none does, mixed otherwise.
\<close>

lemma set_unique: "set (unique xs) = set xs"
  by (simp add: unique_def)

lemma classification_rule:
  "map account_type (pushIf (buildRoundTrip (f # gs) date sy dir P))
     = [if list_all (\<lambda>a. prefix P a) (map account (f # gs)) then Training
        else if list_all (\<lambda>a. \<not> prefix P a) (map account (f # gs)) then Live
        else Mixed]"
  unfolding buildRoundTrip_Cons pushIf_def
  by (auto simp: list_ex_iff list_all_iff set_unique)

text \<open>
  C2 fails on the code for a round trip left open at the end of the day when the configured
  prefix is not \<^verbatim>\<open>TR\<close>: the call that builds it passes no prefix. With the prefix \<^verbatim>\<open>SIM\<close>, a Buy in the account \<^verbatim>\<open>SIM1\<close> that
  is not sold gives a round trip whose only account starts with the prefix and whose type
  is \<open>Live\<close>; the same Buy followed by its Sell gives \<open>Training\<close>.
\<close>

theorem open_round_trip_classified_with_default_prefix:
  "map account_type (groupFillsIntoRoundTrips
       [sampleFill ''09:30:00'' ''AAPL'' ''B'' 150 100 ''SIM1'' 0 0] ''2026-02-10'' None ''SIM'') = [Live]
   \<and> map accounts (groupFillsIntoRoundTrips
       [sampleFill ''09:30:00'' ''AAPL'' ''B'' 150 100 ''SIM1'' 0 0] ''2026-02-10'' None ''SIM'') = [[''SIM1'']]
   \<and> prefix ''SIM'' ''SIM1''
   \<and> map account_type (groupFillsIntoRoundTrips
       [sampleFill ''09:30:00'' ''AAPL'' ''B'' 150 100 ''SIM1'' 0 0,
        sampleFill ''09:45:00'' ''AAPL'' ''S'' 152.5 100 ''SIM1'' 1 250] ''2026-02-10'' None ''SIM'') = [Training]"
  by code_simp

subsection \<open>Rows\<close>

lemma dropWhile_all: "(dropWhile P xs = []) = list_all P xs"
  by (simp add: dropWhile_eq_Nil_conv list_all_iff)

lemma trim_Nil_iff: "(trim s = []) = list_all isSpace s"
proof
  assume "trim s = []"
  then have "dropWhile isSpace (rev (dropWhile isSpace s)) = []"
    by (simp add: trim_def)
  then have "list_all isSpace (rev (dropWhile isSpace s))"
    by (simp only: dropWhile_all)
  then have a: "list_all isSpace (dropWhile isSpace s)"
    by (simp add: list_all_iff)
  have "dropWhile isSpace s = []"
  proof (rule ccontr)
    assume n: "dropWhile isSpace s \<noteq> []"
    then have "\<not> isSpace (hd (dropWhile isSpace s))"
      by (rule hd_dropWhile)
    moreover from a n have "isSpace (hd (dropWhile isSpace s))"
      by (cases "dropWhile isSpace s") simp_all
    ultimately show False
      by simp
  qed
  then show "list_all isSpace s"
    by (simp only: dropWhile_all)
next
  assume "list_all isSpace s"
  then have d: "dropWhile isSpace s = []"
    by (simp only: dropWhile_all)
  show "trim s = []"
    unfolding trim_def d by simp
qed

lemma falsy_trim: "falsy (map_option trim v) = blank v"
  by (cases v) (simp_all add: falsy_def blank_def trim_Nil_iff)

lemma parse_undefined: "parseInt None 10 = None" "parseFloat None = None"
  by code_simp+

lemma takeWhile_Nil_iff: "(takeWhile P xs = []) = (case xs of [] \<Rightarrow> True | x # _ \<Rightarrow> \<not> P x)"
  by (cases xs) simp_all

lemma parseInt_unsigned:
  "(parseInt (Some s) 10 = None) = (takeWhile (isDigit 10) (unsigned s) = [])"
  unfolding parseInt_def unsigned_def Let_def by simp

lemma parseInt_NaN: "(parseInt v 10 = None) = (\<not> startsWithInteger v)"
proof (cases v)
  case None
  then show ?thesis
    by (simp add: parse_undefined startsWithInteger_def)
next
  case (Some s)
  show ?thesis
    unfolding Some parseInt_unsigned startsWithInteger_def takeWhile_Nil_iff
    by (simp split: list.splits)
qed

lemma decimal_digits:
  "(takeWhile (isDigit 10) S = [] \<and>
    (if take 1 (dropWhile (isDigit 10) S) = ''.''
     then takeWhile (isDigit 10) (drop 1 (dropWhile (isDigit 10) S)) else []) = [])
   = (\<not> (case S of c # r \<Rightarrow> isDigit 10 c \<or>
                      (c = CHR ''.'' \<and> (case r of d # _ \<Rightarrow> isDigit 10 d | [] \<Rightarrow> False))
           | [] \<Rightarrow> False))"
proof (cases S)
  case Nil
  then show ?thesis by simp
next
  case (Cons c r)
  show ?thesis
  proof (cases "isDigit 10 c")
    case True
    with Cons show ?thesis by simp
  next
    case False
    with Cons show ?thesis
      by (cases r) (auto simp: takeWhile_Nil_iff)
  qed
qed

lemma parseFloat_unsigned:
  "(parseFloat (Some s) = None) =
     (takeWhile (isDigit 10) (unsigned s) = [] \<and>
      (if take 1 (dropWhile (isDigit 10) (unsigned s)) = ''.''
       then takeWhile (isDigit 10) (drop 1 (dropWhile (isDigit 10) (unsigned s))) else []) = [])"
  unfolding parseFloat_def unsigned_def Let_def by simp

lemma parseFloat_NaN: "(parseFloat v = None) = (\<not> startsWithDecimal v)"
proof (cases v)
  case None
  then show ?thesis
    by (simp add: parse_undefined startsWithDecimal_def)
next
  case (Some s)
  show ?thesis
    unfolding Some parseFloat_unsigned decimal_digits startsWithDecimal_def
    by simp
qed




subsection \<open>Order and numbering\<close>

lemma parses_id: "parses (rt\<lparr>id' := x\<rparr>) = parses rt"
  by (simp add: parses_def)

lemma allRoundTripFills_nonempty: "list_all (\<lambda>r. r \<noteq> []) (allRoundTripFills fs)"
proof -
  have "list_all (\<lambda>r. r \<noteq> []) (concat (map (\<lambda>(key, g). roundTripFills g) groups))" for groups :: "(string \<times> Fill list) list"
    using roundTripFills_nonempty by (induction groups) (auto simp: list_all_iff)
  then show ?thesis
    by (simp add: allRoundTripFills_def)
qed

lemma output_parses:
  assumes "timesParse fs"
  shows "list_all parses (concat (map snd (collectRoundTrips date dir P (groupFills (sortBy byTime fs)))))"
proof -
  let ?H = "\<lambda>r. timeToMinutes (time (hd r)) \<noteq> None"
  let ?groups = "groupFills (sortBy byTime fs)"
  let ?built = "concat (map (\<lambda>(key, g). groupRoundTrips date (keySymbol key) dir P g) ?groups)"
  have s: "set (concat (allRoundTripFills fs)) = set fs"
    using allRoundTripFills_mset [of fs] by (metis set_mset_mset)
  have H: "list_all ?H (allRoundTripFills fs)"
    unfolding list_all_iff
  proof
    fix r
    assume r: "r \<in> set (allRoundTripFills fs)"
    with allRoundTripFills_nonempty [of fs] have "r \<noteq> []"
      by (simp add: list_all_iff)
    then have "hd r \<in> set r"
      by simp
    with r s have "hd r \<in> set fs"
      by auto
    with assms show "timeToMinutes (time (hd r)) \<noteq> None"
      by (simp add: timesParse_def list_all_iff)
  qed
  have "map parses ?built = map ?H (allRoundTripFills fs)"
    unfolding allRoundTripFills_def by (rule all_groups_map) (rule build_entry_time)
  then have "list_all (\<lambda>b. b) (map parses ?built)"
    using H by (simp add: list_all_iff)
  then have b: "list_all parses ?built"
    by (simp add: list_all_iff)
  have "mset (map parses (concat (map snd (collectRoundTrips date dir P ?groups)))) = mset (map parses ?built)"
    by (simp add: collectRoundTrips_mset)
  then have "list_all parses (concat (map snd (collectRoundTrips date dir P ?groups))) = list_all parses ?built"
    by (rule list_all_mset_cong)
  with b show ?thesis
    by simp
qed

lemma ticker_groupRoundTrips: "list_all (\<lambda>rt. ticker rt = s) (groupRoundTrips d s dir P g)"
proof -
  have "map ticker (groupRoundTrips d s dir P g) = map (\<lambda>_. s) (roundTripFills g)"
    by (rule groupRoundTrips_map) (rule build_ticker)
  then have "set (map ticker (groupRoundTrips d s dir P g)) \<subseteq> {s}"
    by auto
  then show ?thesis
    by (auto simp: list_all_iff)
qed

lemma collectRoundTrips_keyed_acc:
  "keyed ticker acc \<Longrightarrow> distinct (map fst acc) \<Longrightarrow>
   keyed ticker (foldl (\<lambda>symbolRoundTrips (key, groupFills').
              pushTo (keySymbol key)
                (groupRoundTrips date (keySymbol key) dir P groupFills')
                (ensureKey (keySymbol key) symbolRoundTrips)) acc groups)
   \<and> distinct (map fst (foldl (\<lambda>symbolRoundTrips (key, groupFills').
              pushTo (keySymbol key)
                (groupRoundTrips date (keySymbol key) dir P groupFills')
                (ensureKey (keySymbol key) symbolRoundTrips)) acc groups))"
proof (induction groups arbitrary: acc)
  case Nil
  then show ?case by simp
next
  case (Cons a groups)
  obtain key g where a: "a = (key, g)" by (cases a)
  show ?case
    unfolding a foldl_Cons prod.case
    by (rule Cons.IH) (simp_all add: keyed_add ticker_groupRoundTrips distinct_keys_add Cons.prems)
qed

lemma collectRoundTrips_keyed:
  "keyed ticker (collectRoundTrips date dir P groups)"
  "distinct (map fst (collectRoundTrips date dir P groups))"
  unfolding collectRoundTrips_def
  using collectRoundTrips_keyed_acc [of "[]" date dir P groups] by (simp_all add: keyed_def)

lemma ticker_assignIds:
  "list_all (\<lambda>rt. ticker rt = k) rts \<Longrightarrow>
   list_all (\<lambda>rt. ticker rt = k) (assignIds date s (sortBy cmp rts))"
proof -
  assume a: "list_all (\<lambda>rt. ticker rt = k) rts"
  have "map ticker (assignIds date s (sortBy cmp rts)) = map ticker (sortBy cmp rts)"
    by (rule map_assignIds) simp
  then have "set (map ticker (assignIds date s (sortBy cmp rts))) = ticker ` set rts"
    by (simp add: set_sortBy)
  with a show ?thesis
    by (auto simp: list_all_iff)
qed

lemma filter_all: "list_all P xs \<Longrightarrow> filter P xs = xs"
  by (induction xs) simp_all

lemma filter_none: "list_all (\<lambda>x. \<not> P x) xs \<Longrightarrow> filter P xs = []"
  by (induction xs) simp_all

lemma numbered_other_symbol:
  "keyed ticker srt \<Longrightarrow> s \<notin> set (map fst srt) \<Longrightarrow>
   filter (\<lambda>rt. ticker rt = s) (numberRoundTrips date srt) = []"
proof (induction srt)
  case Nil
  show ?case by (simp add: numberRoundTrips_concat)
next
  case (Cons a srt)
  obtain k rts where a: "a = (k, rts)" by (cases a)
  from Cons.prems have k: "k \<noteq> s" and r: "list_all (\<lambda>rt. ticker rt = k) rts"
    and t: "keyed ticker srt" "s \<notin> set (map fst srt)"
    by (auto simp: a keyed_def)
  from r have "list_all (\<lambda>rt. ticker rt = k) (assignIds date k (sortBy byEntryTime rts))"
    by (rule ticker_assignIds)
  with k have "list_all (\<lambda>rt. \<not> ticker rt = s) (assignIds date k (sortBy byEntryTime rts))"
    by (auto simp: list_all_iff)
  then have "filter (\<lambda>rt. ticker rt = s) (assignIds date k (sortBy byEntryTime rts)) = []"
    by (rule filter_none)
  moreover have "filter (\<lambda>rt. ticker rt = s) (numberRoundTrips date srt) = []"
    using t by (rule Cons.IH)
  ultimately show ?case
    by (simp add: numberRoundTrips_concat a)
qed

lemma numbered_symbol:
  "keyed ticker srt \<Longrightarrow> distinct (map fst srt) \<Longrightarrow>
   filter (\<lambda>rt. ticker rt = s) (numberRoundTrips date srt)
     = assignIds date s (sortBy byEntryTime (lookup s srt))"
proof (induction srt)
  case Nil
  show ?case by (simp add: numberRoundTrips_concat lookup_def assignIds_def sortBy_Nil)
next
  case (Cons a srt)
  obtain k rts where a: "a = (k, rts)" by (cases a)
  from Cons.prems have r: "list_all (\<lambda>rt. ticker rt = k) rts"
    and t: "keyed ticker srt" "distinct (map fst srt)" and n: "k \<notin> set (map fst srt)"
    by (auto simp: a keyed_def)
  have h: "list_all (\<lambda>rt. ticker rt = k) (assignIds date k (sortBy byEntryTime rts))"
    using r by (rule ticker_assignIds)
  show ?case
  proof (cases "k = s")
    case True
    from h have "filter (\<lambda>rt. ticker rt = s) (assignIds date k (sortBy byEntryTime rts))
        = assignIds date k (sortBy byEntryTime rts)"
      unfolding True by (rule filter_all)
    moreover have "filter (\<lambda>rt. ticker rt = s) (numberRoundTrips date srt) = []"
      using t(1) n unfolding True by (rule numbered_other_symbol)
    ultimately show ?thesis
      by (simp add: numberRoundTrips_concat a lookup_def True)
  next
    case False
    with h have "list_all (\<lambda>rt. \<not> ticker rt = s) (assignIds date k (sortBy byEntryTime rts))"
      by (auto simp: list_all_iff)
    then have "filter (\<lambda>rt. ticker rt = s) (assignIds date k (sortBy byEntryTime rts)) = []"
      by (rule filter_none)
    moreover have "filter (\<lambda>rt. ticker rt = s) (numberRoundTrips date srt)
        = assignIds date s (sortBy byEntryTime (lookup s srt))"
      using t by (rule Cons.IH)
    ultimately show ?thesis
      using False by (simp add: numberRoundTrips_concat a lookup_def)
  qed
qed

lemma lookup_subset: "set (lookup k m) \<subseteq> set (concat (map snd m))"
proof (cases "map_of m k")
  case None
  then show ?thesis by (simp add: lookup_def)
next
  case (Some vs)
  then have "(k, vs) \<in> set m"
    by (rule map_of_SomeD)
  then have "set vs \<subseteq> set (concat (map snd m))"
    by force
  with Some show ?thesis
    by (simp add: lookup_def)
qed

lemma ids_assignIds:
  "map id' (assignIds date s rts)
     = map (\<lambda>n. date @ ''-'' @ s @ ''-'' @ showNat n) [1 ..< Suc (length rts)]"
proof -
  let ?X = "\<lambda>n. date @ ''-'' @ s @ ''-'' @ showNat n"
  have "map id' (assignIds date s rts) = map (?X \<circ> Suc \<circ> fst) (enumerate 0 rts)"
    by (simp add: assignIds_def split_def comp_def)
  also have "\<dots> = map (?X \<circ> Suc) (map fst (enumerate 0 rts))"
    by (simp only: map_map comp_assoc)
  also have "\<dots> = map (?X \<circ> Suc) [0 ..< length rts]"
    by (simp only: map_fst_enumerate add_0)
  also have "\<dots> = map ?X (map Suc [0 ..< length rts])"
    by (simp only: map_map)
  also have "\<dots> = map ?X [1 ..< Suc (length rts)]"
    by (simp only: map_Suc_upt One_nat_def)
  finally show ?thesis .
qed

lemma length_assignIds: "length (assignIds date s rts) = length rts"
  by (simp add: assignIds_def)

lemma entryMinutes_id: "entryMinutes (rt\<lparr>id' := x\<rparr>) = entryMinutes rt"
  by (simp add: entryMinutes_def)



end
